theory Spec2Isabelle
  imports Main "HOL-Library.Sublist" "HOL-Library.Multiset"
begin

section \<open>Enumerated vocabularies (src/models.py)\<close>

text \<open>
  The four enumerations of \<^verbatim>\<open>models.py\<close> are used only through the value sets
  \<^verbatim>\<open>VALID_*\<close> and the membership tests \<^verbatim>\<open>validate_*\<close>. Python strings are modelled
  as \<^typ>\<open>string\<close>, one \<^typ>\<open>char\<close> per code point below 256.
\<close>

definition VALID_SOURCE_TYPES :: "string set" where
  "VALID_SOURCE_TYPES = {''paper'', ''webpage'', ''book'', ''video'', ''blog''}"

definition VALID_IDENTIFIER_TYPES :: "string set" where
  "VALID_IDENTIFIER_TYPES = {''semantic_scholar'', ''arxiv'', ''doi'', ''isbn'', ''url''}"

definition VALID_STATUS_VALUES :: "string set" where
  "VALID_STATUS_VALUES = {''unread'', ''reading'', ''completed'', ''archived''}"

definition VALID_RELATION_TYPES :: "string set" where
  "VALID_RELATION_TYPES =
     {''discusses'', ''introduces'', ''extends'', ''evaluates'', ''applies'', ''critiques''}"

definition validate_source_type :: "string \<Rightarrow> bool" where
  "validate_source_type source_type \<longleftrightarrow> source_type \<in> VALID_SOURCE_TYPES"

definition validate_identifier_type :: "string \<Rightarrow> bool" where
  "validate_identifier_type identifier_type \<longleftrightarrow> identifier_type \<in> VALID_IDENTIFIER_TYPES"

definition validate_status :: "string \<Rightarrow> bool" where
  "validate_status status \<longleftrightarrow> status \<in> VALID_STATUS_VALUES"

definition validate_relation_type :: "string \<Rightarrow> bool" where
  "validate_relation_type relation_type \<longleftrightarrow> relation_type \<in> VALID_RELATION_TYPES"


section \<open>The persistent store (setup\_database.py)\<close>

text \<open>
  One record per table row; the column \<^verbatim>\<open>x\<close> of \<^verbatim>\<open>sources\<close> is the field \<open>s_x\<close>, of
  \<^verbatim>\<open>source_notes\<close> the field \<open>n_x\<close>, of \<^verbatim>\<open>source_entity_links\<close> the field \<open>l_x\<close>.
  Tables are lists in insertion (rowid) order. The \<^verbatim>\<open>identifiers\<close> column holds the JSON
  text of a Python dict from strings to strings; it is modelled as the dict itself, an
  association list. \<^verbatim>\<open>created_at\<close> is the value of \<^verbatim>\<open>CURRENT_TIMESTAMP\<close>, a number of
  seconds that an operation receives as the argument \<open>now\<close>.
\<close>

record source_row =
  s_id :: string
  s_title :: string
  s_type :: string
  s_identifiers :: "(string \<times> string) list"
  s_status :: string
  s_created_at :: nat

record note_row =
  n_source_id :: string
  n_note_title :: string
  n_content :: string
  n_created_at :: nat

record link_row =
  l_source_id :: string
  l_entity_name :: string
  l_relation_type :: string
  l_notes :: "string option"
  l_created_at :: nat

record database =
  sources :: "source_row list"
  source_notes :: "note_row list"
  source_entity_links :: "link_row list"

definition empty_database :: database where
  "empty_database = \<lparr>sources = [], source_notes = [], source_entity_links = []\<rparr>"

subsection \<open>Connections and transactions\<close>

text \<open>
  \<^verbatim>\<open>get_db_connection\<close> opens a connection that is closed on every exit path. A
  connection sees its own uncommitted writes (\<open>pending\<close>); \<^verbatim>\<open>conn.commit()\<close> makes them
  the contents of the file, and closing the connection drops whatever was not committed.
  The database file is taken to exist, as the constructor of \<^verbatim>\<open>LiteratureDatabase\<close>
  has checked.
\<close>

record connection =
  on_disk :: database
  pending :: database

definition get_db_connection :: "database \<Rightarrow> connection" where
  "get_db_connection db = \<lparr>on_disk = db, pending = db\<rparr>"

definition commit :: "connection \<Rightarrow> connection" where
  "commit conn = conn\<lparr>on_disk := pending conn\<rparr>"

definition close :: "connection \<Rightarrow> database" where
  "close conn = on_disk conn"

subsection \<open>The statements the access layer executes\<close>

datatype sqlite3_Error = IntegrityError

text \<open>
  \<^verbatim>\<open>INSERT INTO sources (id, title, type, identifiers) VALUES (?, ?, ?, ?)\<close>: the primary
  key \<^verbatim>\<open>id\<close> and the \<^verbatim>\<open>CHECK\<close> on \<^verbatim>\<open>type\<close> are enforced by the engine; \<^verbatim>\<open>status\<close> and
  \<^verbatim>\<open>created_at\<close> take their column defaults.
\<close>

definition insert_source ::
  "connection \<Rightarrow> string \<Rightarrow> string \<Rightarrow> string \<Rightarrow> (string \<times> string) list \<Rightarrow> nat
     \<Rightarrow> sqlite3_Error + connection" where
  "insert_source conn source_id title source_type identifiers now =
     (if source_id \<in> set (map s_id (sources (pending conn))) then Inl IntegrityError
      else if source_type \<notin> {''paper'', ''webpage'', ''book'', ''video'', ''blog''}
        then Inl IntegrityError
      else Inr (conn\<lparr>pending := (pending conn)\<lparr>sources := sources (pending conn) @
        [\<lparr>s_id = source_id, s_title = title, s_type = source_type,
          s_identifiers = identifiers, s_status = ''unread'', s_created_at = now\<rparr>]\<rparr>\<rparr>))"

text \<open>
  \<^verbatim>\<open>INSERT INTO source_notes (source_id, note_title, content) VALUES (?, ?, ?)\<close> with
  the primary key \<^verbatim>\<open>(source_id, note_title)\<close>.
\<close>

definition insert_note ::
  "connection \<Rightarrow> string \<Rightarrow> string \<Rightarrow> string \<Rightarrow> nat \<Rightarrow> sqlite3_Error + connection" where
  "insert_note conn source_id note_title content now =
     (if (source_id, note_title) \<in>
           set (map (\<lambda>n. (n_source_id n, n_note_title n)) (source_notes (pending conn)))
        then Inl IntegrityError
      else Inr (conn\<lparr>pending := (pending conn)\<lparr>source_notes := source_notes (pending conn) @
        [\<lparr>n_source_id = source_id, n_note_title = note_title, n_content = content,
          n_created_at = now\<rparr>]\<rparr>\<rparr>))"

text \<open>
  \<^verbatim>\<open>INSERT INTO source_entity_links (source_id, entity_name, relation_type, notes)\<close>
  with the primary key \<^verbatim>\<open>(source_id, entity_name)\<close> and the \<^verbatim>\<open>CHECK\<close> on
  \<^verbatim>\<open>relation_type\<close>.
\<close>

definition insert_link ::
  "connection \<Rightarrow> string \<Rightarrow> string \<Rightarrow> string \<Rightarrow> string option \<Rightarrow> nat
     \<Rightarrow> sqlite3_Error + connection" where
  "insert_link conn source_id entity_name relation_type notes now =
     (if (source_id, entity_name) \<in>
           set (map (\<lambda>l. (l_source_id l, l_entity_name l)) (source_entity_links (pending conn)))
        then Inl IntegrityError
      else if relation_type \<notin>
           {''discusses'', ''introduces'', ''extends'', ''evaluates'', ''applies'', ''critiques''}
        then Inl IntegrityError
      else Inr (conn\<lparr>pending := (pending conn)\<lparr>source_entity_links :=
        source_entity_links (pending conn) @
        [\<lparr>l_source_id = source_id, l_entity_name = entity_name,
          l_relation_type = relation_type, l_notes = notes, l_created_at = now\<rparr>]\<rparr>\<rparr>))"

text \<open>
  \<^verbatim>\<open>UPDATE sources SET status = ? WHERE id = ?\<close>: returns the connection together with
  \<^verbatim>\<open>cursor.rowcount\<close>, the number of rows the \<^verbatim>\<open>WHERE\<close> clause selected. The \<^verbatim>\<open>CHECK\<close>
  on \<^verbatim>\<open>status\<close> fails the statement when a row would receive a value outside the list.
\<close>

definition update_source_status ::
  "connection \<Rightarrow> string \<Rightarrow> string \<Rightarrow> sqlite3_Error + (connection \<times> nat)" where
  "update_source_status conn new_status source_id =
     (let rowcount = length (filter (\<lambda>r. s_id r = source_id) (sources (pending conn)))
      in if rowcount \<noteq> 0 \<and> new_status \<notin> {''unread'', ''reading'', ''completed'', ''archived''}
        then Inl IntegrityError
      else Inr (conn\<lparr>pending := (pending conn)\<lparr>sources :=
        map (\<lambda>r. if s_id r = source_id then r\<lparr>s_status := new_status\<rparr> else r)
          (sources (pending conn))\<rparr>\<rparr>, rowcount))"

text \<open>
  \<^verbatim>\<open>ORDER BY created_at DESC\<close>. SQL leaves the order of rows with equal keys open; the
  model keeps them in table order. The theorems below state only what holds for every
  order of equal keys.
\<close>

definition order_by_created_at_desc :: "('a \<Rightarrow> nat) \<Rightarrow> 'a list \<Rightarrow> 'a list" where
  "order_by_created_at_desc created_at rows = sort_key (\<lambda>r. - int (created_at r)) rows"

text \<open>
  What a call of the layer can raise: its own \<^verbatim>\<open>DatabaseError\<close> (declared with the layer
  below), or the \<^verbatim>\<open>OverflowError\<close> of Python's \<^verbatim>\<open>sqlite3\<close> module, which
  \<^verbatim>\<open>cursor.execute\<close> raises when an integer parameter does not fit the 64-bit signed
  integers of SQLite.
\<close>

datatype 'e raised = DatabaseError_raised 'e | OverflowError

text \<open>
  \<^verbatim>\<open>LIMIT ?\<close> with a Python integer as the parameter. Outside the range
  \<open>-2\<^sup>6\<^sup>3 \<dots> 2\<^sup>6\<^sup>3 - 1\<close> binding the parameter fails and no row is read; inside it, a
  negative bound means no bound in SQLite.
\<close>

definition sql_limit :: "int \<Rightarrow> 'a list \<Rightarrow> 'e raised + 'a list" where
  "sql_limit n rows =
     (if n < - 9223372036854775808 \<or> 9223372036854775807 < n then Inl OverflowError
      else if n < 0 then Inr rows
      else Inr (take (nat n) rows))"


section \<open>The data access layer (src/database.py)\<close>

text \<open>
  Every failure of the layer is a \<^verbatim>\<open>DatabaseError\<close> with a message; there is one
  constructor per message, carrying the value the message interpolates. The messages
  \<^verbatim>\<open>Failed to ...\<close> wrap an error of the engine.
\<close>

datatype DatabaseError =
    Invalid_source_type string
  | Invalid_identifier_type string
  | Source_already_exists string
  | Failed_to_add_source
  | Source_not_found string
  | Note_already_exists string
  | Failed_to_add_note
  | Invalid_status string
  | Failed_to_update_status
  | Invalid_relation_type string
  | Link_already_exists string
  | Failed_to_create_entity_link

text \<open>
  The specification names kinds of error rather than concrete types. The kind of each
  \<^verbatim>\<open>DatabaseError\<close> follows its message: a value outside a vocabulary is a validation
  error, a violated uniqueness rule a conflict, a missing source a not-found error, and
  a wrapped engine error a failure of the store.
\<close>

datatype error_kind = ValidationError | ConflictError | NotFoundError | StoreUnavailable

fun kind_of :: "DatabaseError \<Rightarrow> error_kind" where
  "kind_of (Invalid_source_type _) = ValidationError"
| "kind_of (Invalid_identifier_type _) = ValidationError"
| "kind_of (Invalid_status _) = ValidationError"
| "kind_of (Invalid_relation_type _) = ValidationError"
| "kind_of (Source_already_exists _) = ConflictError"
| "kind_of (Note_already_exists _) = ConflictError"
| "kind_of (Link_already_exists _) = ConflictError"
| "kind_of (Source_not_found _) = NotFoundError"
| "kind_of Failed_to_add_source = StoreUnavailable"
| "kind_of Failed_to_add_note = StoreUnavailable"
| "kind_of Failed_to_update_status = StoreUnavailable"
| "kind_of Failed_to_create_entity_link = StoreUnavailable"

text \<open>
  \<^verbatim>\<open>json_extract(identifiers, '$.key')\<close> on the stored dict. For a key of the identifier
  vocabulary the path \<^verbatim>\<open>$.key\<close> selects that key. The engine is taken to return the
  stored string whole, as SQLite does from version 3.45 on; earlier versions end the
  extracted text at a character U+0000, so for a value with that character the lookup
  of an older engine can miss a row that this one finds.
\<close>

definition json_extract :: "(string \<times> string) list \<Rightarrow> string \<Rightarrow> string option" where
  "json_extract identifiers key = map_of identifiers key"

text \<open>
  \<^verbatim>\<open>find_source_by_identifier\<close>: the first row that passes
  \<^verbatim>\<open>WHERE type = ? AND json_extract(identifiers, ?) = ?\<close>; both comparisons are
  equality of strings.
\<close>

definition matches_identifier :: "string \<Rightarrow> string \<Rightarrow> string \<Rightarrow> source_row \<Rightarrow> bool" where
  "matches_identifier identifier_type identifier_value source_type r \<longleftrightarrow>
     s_type r = source_type \<and>
     json_extract (s_identifiers r) identifier_type = Some identifier_value"

definition find_source_by_identifier ::
  "database \<Rightarrow> string \<Rightarrow> string \<Rightarrow> string \<Rightarrow> source_row option" where
  "find_source_by_identifier db identifier_type identifier_value source_type =
     (let conn = get_db_connection db
      in find (matches_identifier identifier_type identifier_value source_type)
           (sources (pending conn)))"

text \<open>
  \<^verbatim>\<open>add_source\<close>. \<open>new_id\<close> is the value of \<^verbatim>\<open>str(uuid.uuid4())\<close>. Each mutating
  operation returns its outcome together with the contents of the file once the
  connection is closed.
\<close>

definition add_source ::
  "database \<Rightarrow> string \<Rightarrow> nat \<Rightarrow> string \<Rightarrow> string \<Rightarrow> string \<Rightarrow> string
     \<Rightarrow> (DatabaseError + string) \<times> database" where
  "add_source db new_id now title source_type identifier_type identifier_value =
     (if \<not> validate_source_type source_type then (Inl (Invalid_source_type source_type), db)
      else if \<not> validate_identifier_type identifier_type
        then (Inl (Invalid_identifier_type identifier_type), db)
      else case find_source_by_identifier db identifier_type identifier_value source_type of
        Some existing \<Rightarrow> (Inl (Source_already_exists (s_id existing)), db)
      | None \<Rightarrow>
          (let source_id = new_id;
               identifiers = [(identifier_type, identifier_value)];
               conn = get_db_connection db
           in case insert_source conn source_id title source_type identifiers now of
                Inr conn' \<Rightarrow> (Inr source_id, close (commit conn'))
              | Inl e \<Rightarrow> (Inl Failed_to_add_source, close conn)))"

text \<open>
  \<^verbatim>\<open>get_source_by_id\<close>: the source with its notes, newest first, and its links. The
  query for the links has no \<^verbatim>\<open>ORDER BY\<close>, so their order is the engine's choice; the
  model keeps table order, and no theorem below depends on the order of links.
\<close>

record note_dict =
  nd_title :: string
  nd_content :: string
  nd_created_at :: nat

record entity_link_dict =
  ld_entity_name :: string
  ld_relation_type :: string
  ld_notes :: "string option"
  ld_created_at :: nat

record source_dict =
  src_id :: string
  src_title :: string
  src_type :: string
  src_identifiers :: "(string \<times> string) list"
  src_status :: string
  src_created_at :: nat
  src_notes :: "note_dict list"
  src_entity_links :: "entity_link_dict list"

definition get_source_by_id :: "database \<Rightarrow> string \<Rightarrow> source_dict option" where
  "get_source_by_id db source_id =
     (let conn = get_db_connection db
      in case find (\<lambda>r. s_id r = source_id) (sources (pending conn)) of
           None \<Rightarrow> None
         | Some source_row \<Rightarrow> Some
             \<lparr>src_id = s_id source_row, src_title = s_title source_row,
              src_type = s_type source_row, src_identifiers = s_identifiers source_row,
              src_status = s_status source_row, src_created_at = s_created_at source_row,
              src_notes =
                map (\<lambda>row. \<lparr>nd_title = n_note_title row, nd_content = n_content row,
                             nd_created_at = n_created_at row\<rparr>)
                  (order_by_created_at_desc n_created_at
                     (filter (\<lambda>n. n_source_id n = source_id) (source_notes (pending conn)))),
              src_entity_links =
                map (\<lambda>row. \<lparr>ld_entity_name = l_entity_name row,
                             ld_relation_type = l_relation_type row,
                             ld_notes = l_notes row, ld_created_at = l_created_at row\<rparr>)
                  (filter (\<lambda>l. l_source_id l = source_id)
                     (source_entity_links (pending conn)))\<rparr>)"

text \<open>\<^verbatim>\<open>add_note\<close>.\<close>

definition add_note ::
  "database \<Rightarrow> nat \<Rightarrow> string \<Rightarrow> string \<Rightarrow> string \<Rightarrow> (DatabaseError + bool) \<times> database" where
  "add_note db now source_id note_title content =
     (let conn = get_db_connection db
      in if find (\<lambda>r. s_id r = source_id) (sources (pending conn)) = None
           then (Inl (Source_not_found source_id), close conn)
         else if find (\<lambda>n. n_source_id n = source_id \<and> n_note_title n = note_title)
                   (source_notes (pending conn)) \<noteq> None
           then (Inl (Note_already_exists note_title), close conn)
         else case insert_note conn source_id note_title content now of
                Inr conn' \<Rightarrow> (Inr True, close (commit conn'))
              | Inl e \<Rightarrow> (Inl Failed_to_add_note, close conn))"

text \<open>
  \<^verbatim>\<open>update_status\<close>: the statement runs first, and the missing source is found from
  its row count; the error leaves the \<^verbatim>\<open>with\<close> block before the commit.
\<close>

definition update_status ::
  "database \<Rightarrow> string \<Rightarrow> string \<Rightarrow> (DatabaseError + bool) \<times> database" where
  "update_status db source_id new_status =
     (if \<not> validate_status new_status then (Inl (Invalid_status new_status), db)
      else let conn = get_db_connection db
        in case update_source_status conn new_status source_id of
             Inr (conn', rowcount) \<Rightarrow>
               if rowcount = 0 then (Inl (Source_not_found source_id), close conn')
               else (Inr True, close (commit conn'))
           | Inl e \<Rightarrow> (Inl Failed_to_update_status, close conn))"

text \<open>\<^verbatim>\<open>link_to_entity\<close>.\<close>

definition link_to_entity ::
  "database \<Rightarrow> nat \<Rightarrow> string \<Rightarrow> string \<Rightarrow> string \<Rightarrow> string option
     \<Rightarrow> (DatabaseError + bool) \<times> database" where
  "link_to_entity db now source_id entity_name relation_type notes =
     (if \<not> validate_relation_type relation_type
        then (Inl (Invalid_relation_type relation_type), db)
      else let conn = get_db_connection db
        in if find (\<lambda>r. s_id r = source_id) (sources (pending conn)) = None
             then (Inl (Source_not_found source_id), close conn)
           else if find (\<lambda>l. l_source_id l = source_id \<and> l_entity_name l = entity_name)
                     (source_entity_links (pending conn)) \<noteq> None
             then (Inl (Link_already_exists entity_name), close conn)
           else case insert_link conn source_id entity_name relation_type notes now of
                  Inr conn' \<Rightarrow> (Inr True, close (commit conn'))
                | Inl e \<Rightarrow> (Inl Failed_to_create_entity_link, close conn))"

text \<open>
  \<^verbatim>\<open>list_sources\<close>. A filter argument is optional, and the code tests it with
  \<^verbatim>\<open>if source_type:\<close>, so \<^verbatim>\<open>None\<close> and the empty string both mean that no filter was
  given. Each filter that is given adds one condition to the \<^verbatim>\<open>WHERE\<close> clause. The
  filters are validated before the query runs; \<^verbatim>\<open>limit\<close> is any Python integer and is
  bound as the parameter of \<^verbatim>\<open>LIMIT\<close> when the query runs.
\<close>

record source_summary =
  sum_id :: string
  sum_title :: string
  sum_type :: string
  sum_status :: string
  sum_created_at :: nat

definition summary_of :: "source_row \<Rightarrow> source_summary" where
  "summary_of row = \<lparr>sum_id = s_id row, sum_title = s_title row, sum_type = s_type row,
     sum_status = s_status row, sum_created_at = s_created_at row\<rparr>"

definition type_condition :: "string option \<Rightarrow> DatabaseError + (source_row \<Rightarrow> bool) list" where
  "type_condition source_type =
     (case source_type of
        None \<Rightarrow> Inr []
      | Some t \<Rightarrow>
          if t = [] then Inr []
          else if \<not> validate_source_type t then Inl (Invalid_source_type t)
          else Inr [\<lambda>r. s_type r = t])"

definition status_condition :: "string option \<Rightarrow> DatabaseError + (source_row \<Rightarrow> bool) list" where
  "status_condition status =
     (case status of
        None \<Rightarrow> Inr []
      | Some s \<Rightarrow>
          if s = [] then Inr []
          else if \<not> validate_status s then Inl (Invalid_status s)
          else Inr [\<lambda>r. s_status r = s])"

definition list_sources ::
  "database \<Rightarrow> string option \<Rightarrow> string option \<Rightarrow> int
     \<Rightarrow> DatabaseError raised + source_summary list" where
  "list_sources db source_type status limit =
     (case type_condition source_type of
        Inl e \<Rightarrow> Inl (DatabaseError_raised e)
      | Inr type_conditions \<Rightarrow>
          (case status_condition status of
             Inl e \<Rightarrow> Inl (DatabaseError_raised e)
           | Inr status_conditions \<Rightarrow>
               (let conditions = type_conditions @ status_conditions;
                    conn = get_db_connection db
                in case sql_limit limit
                          (order_by_created_at_desc s_created_at
                             (filter (\<lambda>r. list_all (\<lambda>c. c r) conditions)
                                (sources (pending conn)))) of
                     Inl e \<Rightarrow> Inl e
                   | Inr rows \<Rightarrow> Inr (map summary_of rows))))"

text \<open>
  What a call of \<open>list_sources\<close> asks for: a row passes when it agrees with every
  filter that was given, where \<^verbatim>\<open>None\<close> and the empty string count as not given. The
  theorem on \<open>list_sources\<close> compares the conditions the code builds with this predicate.
\<close>

definition matches_filters :: "string option \<Rightarrow> string option \<Rightarrow> source_row \<Rightarrow> bool" where
  "matches_filters source_type status r \<longleftrightarrow>
     (case source_type of None \<Rightarrow> True | Some t \<Rightarrow> t = [] \<or> s_type r = t) \<and>
     (case status of None \<Rightarrow> True | Some s \<Rightarrow> s = [] \<or> s_status r = s)"

text \<open>
  \<^verbatim>\<open>get_database_stats\<close>. \<^verbatim>\<open>SELECT x, COUNT(*) ... GROUP BY x\<close> gives one row per
  value of the column; the rows become a dict, here an association list with one entry
  per key.
\<close>

definition group_by_count :: "string list \<Rightarrow> (string \<times> nat) list" where
  "group_by_count column = map (\<lambda>v. (v, count_list column v)) (remdups column)"

record database_stats =
  sources_by_type :: "(string \<times> nat) list"
  sources_by_status :: "(string \<times> nat) list"
  total_sources :: nat
  total_notes :: nat
  total_entity_links :: nat

definition get_database_stats :: "database \<Rightarrow> database_stats" where
  "get_database_stats db =
     (let conn = get_db_connection db
      in \<lparr>sources_by_type = group_by_count (map s_type (sources (pending conn))),
          sources_by_status = group_by_count (map s_status (sources (pending conn))),
          total_sources = length (sources (pending conn)),
          total_notes = length (source_notes (pending conn)),
          total_entity_links = length (source_entity_links (pending conn))\<rparr>)"

subsection \<open>Histories of calls\<close>

text \<open>
  A store in use is the empty store after a sequence of calls of the mutating
  operations, in any order and with any arguments, some of which fail.
\<close>

datatype operation =
    Add_source string nat string string string string
  | Add_note nat string string string
  | Update_status string string
  | Link_to_entity nat string string string "string option"

fun perform :: "operation \<Rightarrow> database \<Rightarrow> bool \<times> database" where
  "perform (Add_source new_id now title source_type identifier_type identifier_value) db =
     (case add_source db new_id now title source_type identifier_type identifier_value of
        (r, db') \<Rightarrow> (\<not> isl r, db'))"
| "perform (Add_note now source_id note_title content) db =
     (case add_note db now source_id note_title content of (r, db') \<Rightarrow> (\<not> isl r, db'))"
| "perform (Update_status source_id new_status) db =
     (case update_status db source_id new_status of (r, db') \<Rightarrow> (\<not> isl r, db'))"
| "perform (Link_to_entity now source_id entity_name relation_type notes) db =
     (case link_to_entity db now source_id entity_name relation_type notes of
        (r, db') \<Rightarrow> (\<not> isl r, db'))"

text \<open>
  \<open>run ops db\<close> performs the calls in order and returns the calls that succeeded
  together with the final store.
\<close>

fun run :: "operation list \<Rightarrow> database \<Rightarrow> operation list \<times> database" where
  "run [] db = ([], db)"
| "run (x # ops) db =
     (case perform x db of
        (ok, db') \<Rightarrow>
          (case run ops db' of
             (done_ops, db'') \<Rightarrow> ((if ok then x # done_ops else done_ops), db'')))"

fun is_Add_source :: "operation \<Rightarrow> bool" where
  "is_Add_source (Add_source _ _ _ _ _ _) = True"
| "is_Add_source _ = False"

fun is_Add_note :: "operation \<Rightarrow> bool" where
  "is_Add_note (Add_note _ _ _ _) = True"
| "is_Add_note _ = False"

fun is_Link_to_entity :: "operation \<Rightarrow> bool" where
  "is_Link_to_entity (Link_to_entity _ _ _ _ _) = True"
| "is_Link_to_entity _ = False"

text \<open>
  Referential integrity: every note and every link belongs to a source of the store.
  The schema declares the references, and the operations keep them (see
  \<open>references_ok_run\<close> below).
\<close>

definition references_ok :: "database \<Rightarrow> bool" where
  "references_ok db \<longleftrightarrow>
     list_all (\<lambda>n. n_source_id n \<in> set (map s_id (sources db))) (source_notes db) \<and>
     list_all (\<lambda>l. l_source_id l \<in> set (map s_id (sources db))) (source_entity_links db)"


section \<open>Search helper (src/utils.py)\<close>

text \<open>
  \<^verbatim>\<open>str.lower\<close> on code points below 256: the letters A to Z and the capital letters of
  Latin-1 (192 to 222 without the multiplication sign 215) move up by 32.
\<close>

definition lower_char :: "char \<Rightarrow> char" where
  "lower_char c =
     (let n = (of_char c :: nat)
      in if (65 \<le> n \<and> n \<le> 90) \<or> (192 \<le> n \<and> n \<le> 222 \<and> n \<noteq> 215)
         then char_of (n + 32) else c)"

definition lower :: "string \<Rightarrow> string" where
  "lower s = map lower_char s"

text \<open>
  \<^verbatim>\<open>str.split()\<close> without arguments: the maximal runs of characters that are not white
  space, none of them empty.
\<close>

definition isspace :: "char \<Rightarrow> bool" where
  "isspace c =
     (let n = (of_char c :: nat)
      in (9 \<le> n \<and> n \<le> 13) \<or> (28 \<le> n \<and> n \<le> 32) \<or> n = 133 \<or> n = 160)"

fun split_from :: "string \<Rightarrow> string \<Rightarrow> string list" where
  "split_from word [] = (if word = [] then [] else [word])"
| "split_from word (c # cs) =
     (if isspace c then (if word = [] then split_from [] cs else word # split_from [] cs)
      else split_from (word @ [c]) cs)"

definition split :: "string \<Rightarrow> string list" where
  "split s = split_from [] s"

text \<open>
  Tables to compare \<open>lower\<close> and \<open>split\<close> with: the capital letters below 256 with
  their small letters in the same order, and the characters that \<^verbatim>\<open>str.split()\<close>
  treats as white space.
\<close>

definition capital_letters :: string where
  "capital_letters = ''ABCDEFGHIJKLMNOPQRSTUVWXYZ'' @
     [CHR 0xC0, CHR 0xC1, CHR 0xC2, CHR 0xC3, CHR 0xC4, CHR 0xC5, CHR 0xC6, CHR 0xC7,
      CHR 0xC8, CHR 0xC9, CHR 0xCA, CHR 0xCB, CHR 0xCC, CHR 0xCD, CHR 0xCE, CHR 0xCF,
      CHR 0xD0, CHR 0xD1, CHR 0xD2, CHR 0xD3, CHR 0xD4, CHR 0xD5, CHR 0xD6,
      CHR 0xD8, CHR 0xD9, CHR 0xDA, CHR 0xDB, CHR 0xDC, CHR 0xDD, CHR 0xDE]"

definition small_letters :: string where
  "small_letters = ''abcdefghijklmnopqrstuvwxyz'' @
     [CHR 0xE0, CHR 0xE1, CHR 0xE2, CHR 0xE3, CHR 0xE4, CHR 0xE5, CHR 0xE6, CHR 0xE7,
      CHR 0xE8, CHR 0xE9, CHR 0xEA, CHR 0xEB, CHR 0xEC, CHR 0xED, CHR 0xEE, CHR 0xEF,
      CHR 0xF0, CHR 0xF1, CHR 0xF2, CHR 0xF3, CHR 0xF4, CHR 0xF5, CHR 0xF6,
      CHR 0xF8, CHR 0xF9, CHR 0xFA, CHR 0xFB, CHR 0xFC, CHR 0xFD, CHR 0xFE]"

definition whitespace_characters :: string where
  "whitespace_characters =
     [CHR 0x09, CHR 0x0A, CHR 0x0B, CHR 0x0C, CHR 0x0D, CHR 0x1C, CHR 0x1D, CHR 0x1E,
      CHR 0x1F, CHR 0x20, CHR 0x85, CHR 0xA0]"

text \<open>
  \<^verbatim>\<open>search_sources_by_title\<close>. \<^verbatim>\<open>a in b\<close> on strings is \<^const>\<open>sublist\<close>, a contiguous
  occurrence. The loop collects the matching sources with their scores; the sort by
  score is stable and descending (\<^verbatim>\<open>reverse=True\<close> keeps equal scores in their
  original order).
\<close>

definition match_score :: "string \<Rightarrow> string \<Rightarrow> int option" where
  "match_score query_lower title =
     (let title_lower = lower title
      in if query_lower = title_lower then Some 100
         else if sublist query_lower title_lower then Some 50
         else if list_ex (\<lambda>word. sublist word title_lower) (split query_lower) then Some 25
         else None)"

fun collect_matches :: "string \<Rightarrow> source_summary list \<Rightarrow> (source_summary \<times> int) list" where
  "collect_matches query_lower [] = []"
| "collect_matches query_lower (source # rest) =
     (case match_score query_lower (sum_title source) of
        Some score \<Rightarrow> (source, score) # collect_matches query_lower rest
      | None \<Rightarrow> collect_matches query_lower rest)"

definition search_sources_by_title :: "source_summary list \<Rightarrow> string \<Rightarrow> source_summary list" where
  "search_sources_by_title srcs query =
     (let query_lower = lower query;
          matches = collect_matches query_lower srcs
      in map fst (sort_key (\<lambda>m. - snd m) matches))"


section \<open>Example stores\<close>

text \<open>A store with a paper and a book, as the tests build it.\<close>

definition two_sources :: database where
  "two_sources =
     \<lparr>sources =
        [\<lparr>s_id = ''id-A'', s_title = ''Paper A'', s_type = ''paper'',
          s_identifiers = [(''arxiv'', ''1111.1111'')], s_status = ''unread'',
          s_created_at = 1\<rparr>,
         \<lparr>s_id = ''id-B'', s_title = ''Book B'', s_type = ''book'',
          s_identifiers = [(''isbn'', ''978-1111111111'')], s_status = ''unread'',
          s_created_at = 2\<rparr>],
      source_notes = [], source_entity_links = []\<rparr>"

text \<open>Three summaries with the titles of the specification's search example.\<close>

definition three_titles :: "source_summary list" where
  "three_titles =
     [\<lparr>sum_id = ''id-1'', sum_title = ''Transformer Networks'', sum_type = ''paper'',
       sum_status = ''unread'', sum_created_at = 3\<rparr>,
      \<lparr>sum_id = ''id-2'', sum_title = ''A Study of Transformers'', sum_type = ''paper'',
       sum_status = ''reading'', sum_created_at = 2\<rparr>,
      \<lparr>sum_id = ''id-3'', sum_title = ''Unrelated Topic'', sum_type = ''blog'',
       sum_status = ''unread'', sum_created_at = 1\<rparr>]"

text \<open>Five summaries whose titles differ in case and in the words they share.\<close>

definition five_titles :: "source_summary list" where
  "five_titles =
     [\<lparr>sum_id = ''id-1'', sum_title = ''Machine Learning Basics'', sum_type = ''book'',
       sum_status = ''unread'', sum_created_at = 5\<rparr>,
      \<lparr>sum_id = ''id-2'', sum_title = ''DEEP LEARNING'', sum_type = ''book'',
       sum_status = ''reading'', sum_created_at = 4\<rparr>,
      \<lparr>sum_id = ''id-3'', sum_title = ''Notes on Deep Learning'', sum_type = ''blog'',
       sum_status = ''unread'', sum_created_at = 3\<rparr>,
      \<lparr>sum_id = ''id-4'', sum_title = ''Learning Deep'', sum_type = ''video'',
       sum_status = ''unread'', sum_created_at = 2\<rparr>,
      \<lparr>sum_id = ''id-5'', sum_title = ''Cooking'', sum_type = ''webpage'',
       sum_status = ''unread'', sum_created_at = 1\<rparr>]"

text \<open>The calls of the test \<^verbatim>\<open>test_database_stats\<close>, followed by a call that fails.\<close>

definition stats_history :: "operation list" where
  "stats_history =
     [Add_source ''id-1'' 1 ''Test Paper'' ''paper'' ''arxiv'' ''1234.5678'',
      Add_note 2 ''id-1'' ''Note 1'' ''Content 1'',
      Link_to_entity 3 ''id-1'' ''concept'' ''discusses'' None,
      Add_note 4 ''id-1'' ''Note 1'' ''Content 2'']"


section \<open>Properties\<close>

subsection \<open>Helper facts about the statements\<close>

lemma find_None_filter: "find P xs = None \<longleftrightarrow> filter P xs = []"
  by (induction xs) auto

lemma vocab_simps:
  "validate_source_type t \<longleftrightarrow> t \<in> {''paper'', ''webpage'', ''book'', ''video'', ''blog''}"
  "validate_status s \<longleftrightarrow> s \<in> {''unread'', ''reading'', ''completed'', ''archived''}"
  "validate_relation_type r \<longleftrightarrow>
     r \<in> {''discusses'', ''introduces'', ''extends'', ''evaluates'', ''applies'', ''critiques''}"
  by (simp_all only: validate_source_type_def VALID_SOURCE_TYPES_def validate_status_def
      VALID_STATUS_VALUES_def validate_relation_type_def VALID_RELATION_TYPES_def)

lemma add_source_ok:
  assumes "validate_source_type ty" "validate_identifier_type it"
    and "find_source_by_identifier db it iv ty = None"
    and "new_id \<notin> set (map s_id (sources db))"
  shows "add_source db new_id now title ty it iv =
    (Inr new_id, db\<lparr>sources := sources db @
       [\<lparr>s_id = new_id, s_title = title, s_type = ty, s_identifiers = [(it, iv)],
         s_status = ''unread'', s_created_at = now\<rparr>]\<rparr>)"
proof -
  have chk: "ty \<in> {''paper'', ''webpage'', ''book'', ''video'', ''blog''}"
    using assms(1) by (simp only: vocab_simps)
  have ins: "insert_source \<lparr>on_disk = db, pending = db\<rparr> new_id title ty [(it, iv)] now =
    Inr \<lparr>on_disk = db, pending = db\<lparr>sources := sources db @
       [\<lparr>s_id = new_id, s_title = title, s_type = ty, s_identifiers = [(it, iv)],
         s_status = ''unread'', s_created_at = now\<rparr>]\<rparr>\<rparr>"
    using assms(4) chk unfolding insert_source_def by simp
  show ?thesis
    unfolding add_source_def using assms(1-3)
    by (simp add: ins Let_def commit_def close_def get_db_connection_def)
qed

lemma find_append:
  "find P (xs @ ys) = (case find P xs of None \<Rightarrow> find P ys | Some x \<Rightarrow> Some x)"
  by (induction xs) auto

lemma add_source_conflict:
  assumes "validate_source_type ty" "validate_identifier_type it"
    and "find_source_by_identifier db it iv ty = Some r"
  shows "add_source db new_id now title ty it iv = (Inl (Source_already_exists (s_id r)), db)"
  unfolding add_source_def using assms by simp

lemma add_source_Inr:
  assumes "fst (add_source db new_id now title ty it iv) = Inr sid"
  shows "validate_source_type ty \<and> validate_identifier_type it \<and>
    find_source_by_identifier db it iv ty = None \<and>
    new_id \<notin> set (map s_id (sources db)) \<and> sid = new_id"
  using assms unfolding add_source_def insert_source_def get_db_connection_def
  by (auto simp: Let_def split: if_splits option.splits sum.splits)

lemma add_note_ok:
  assumes "sid \<in> set (map s_id (sources db))"
    and "(sid, t) \<notin> set (map (\<lambda>n. (n_source_id n, n_note_title n)) (source_notes db))"
  shows "add_note db now sid t c = (Inr True, db\<lparr>source_notes := source_notes db @
    [\<lparr>n_source_id = sid, n_note_title = t, n_content = c, n_created_at = now\<rparr>]\<rparr>)"
proof -
  have a: "find (\<lambda>r. s_id r = sid) (sources db) \<noteq> None"
    using assms(1) by (auto simp: find_None_iff)
  have b: "find (\<lambda>n. n_source_id n = sid \<and> n_note_title n = t) (source_notes db) = None"
    using assms(2) by (auto simp: find_None_iff)
  show ?thesis
    unfolding add_note_def insert_note_def get_db_connection_def
    using a b assms(2) by (simp add: Let_def commit_def close_def)
qed

lemma add_note_conflict:
  assumes "sid \<in> set (map s_id (sources db))"
    and "(sid, t) \<in> set (map (\<lambda>n. (n_source_id n, n_note_title n)) (source_notes db))"
  shows "add_note db now sid t c = (Inl (Note_already_exists t), db)"
proof -
  have a: "find (\<lambda>r. s_id r = sid) (sources db) \<noteq> None"
    using assms(1) by (auto simp: find_None_iff)
  have b: "find (\<lambda>n. n_source_id n = sid \<and> n_note_title n = t) (source_notes db) \<noteq> None"
    using assms(2) by (auto simp: find_None_iff)
  show ?thesis
    unfolding add_note_def get_db_connection_def
    using a b by (simp add: Let_def close_def)
qed


subsection \<open>Duplicate sources are rejected\<close>

text \<open>
  C1. The identity of a source is its type together with the value its identifiers hold
  under an identifier type. Take a type and an identifier type of the vocabularies, a
  store in which no source has the type \<open>ty\<close> and holds \<open>iv\<close> under \<open>it\<close> (sources
  of another type, or with another value or another identifier type, may be there), and
  a fresh id. Then the first \<open>add_source\<close> succeeds, returns the id and appends the one
  new row; a second \<open>add_source\<close> with the same type, identifier type and value
  (whatever its title, id and time) fails with the conflict error that carries the id
  of the first source and leaves the store as it was; and the store then holds exactly
  one source with that identity, the one just added.
\<close>

theorem add_source_twice_conflict:
  assumes "validate_source_type ty" and "validate_identifier_type it"
    and "\<forall>r\<in>set (sources db). \<not> (s_type r = ty \<and> map_of (s_identifiers r) it = Some iv)"
    and "id1 \<notin> set (map s_id (sources db))"
  shows "let r1 = add_source db id1 now1 title1 ty it iv;
             r2 = add_source (snd r1) id2 now2 title2 ty it iv
         in fst r1 = Inr id1 \<and>
            fst r2 = Inl (Source_already_exists id1) \<and>
            kind_of (Source_already_exists id1) = ConflictError \<and>
            snd r2 = snd r1 \<and>
            sources (snd r2) = sources db @
              [\<lparr>s_id = id1, s_title = title1, s_type = ty, s_identifiers = [(it, iv)],
                s_status = ''unread'', s_created_at = now1\<rparr>] \<and>
            map s_id (filter (\<lambda>r. s_type r = ty \<and> map_of (s_identifiers r) it = Some iv)
                        (sources (snd r2))) = [id1]"
proof -
  let ?same = "\<lambda>r. s_type r = ty \<and> map_of (s_identifiers r) it = Some iv"
  let ?row = "\<lparr>s_id = id1, s_title = title1, s_type = ty, s_identifiers = [(it, iv)],
         s_status = ''unread'', s_created_at = now1\<rparr>"
  let ?db1 = "db\<lparr>sources := sources db @ [?row]\<rparr>"
  have where_clause: "matches_identifier it iv ty = ?same"
    by (rule ext) (simp add: matches_identifier_def json_extract_def)
  have none: "filter ?same (sources db) = []"
    using assms(3) by (simp add: filter_empty_conv)
  then have absent: "find_source_by_identifier db it iv ty = None"
    by (simp add: find_source_by_identifier_def get_db_connection_def find_None_filter
        where_clause)
  have r1: "add_source db id1 now1 title1 ty it iv = (Inr id1, ?db1)"
    by (rule add_source_ok [OF assms(1,2) absent assms(4)])
  have "find ?same (sources db) = None"
    using none by (simp add: find_None_filter)
  then have f: "find_source_by_identifier ?db1 it iv ty = Some ?row"
    by (simp add: find_source_by_identifier_def get_db_connection_def find_append where_clause)
  have r2: "add_source ?db1 id2 now2 title2 ty it iv = (Inl (Source_already_exists id1), ?db1)"
    using add_source_conflict [OF assms(1,2) f] by simp
  have one: "map s_id (filter ?same (sources ?db1)) = [id1]"
    using none by simp
  show ?thesis
    unfolding Let_def r1 snd_conv r2 fst_conv using one by simp
qed

text \<open>
  On the store with two sources: a book may reuse the arXiv id of the paper, since its
  type differs, and only the second such book is a duplicate.
\<close>

theorem add_source_twice_conflict_witness:
  "let r1 = add_source two_sources ''id-C'' 5 ''Book C'' ''book'' ''arxiv'' ''1111.1111'';
       r2 = add_source (snd r1) ''id-D'' 6 ''Book D'' ''book'' ''arxiv'' ''1111.1111''
   in fst r1 = Inr ''id-C'' \<and>
      fst r2 = Inl (Source_already_exists ''id-C'') \<and>
      kind_of (Source_already_exists ''id-C'') = ConflictError \<and>
      snd r2 = snd r1 \<and>
      sources (snd r2) = sources two_sources @
        [\<lparr>s_id = ''id-C'', s_title = ''Book C'', s_type = ''book'',
          s_identifiers = [(''arxiv'', ''1111.1111'')], s_status = ''unread'',
          s_created_at = 5\<rparr>] \<and>
      map s_id (filter (\<lambda>r. s_type r = ''book'' \<and>
                  map_of (s_identifiers r) ''arxiv'' = Some ''1111.1111'')
                  (sources (snd r2))) = [''id-C'']"
proof -
  have 1: "validate_source_type ''book''"
    by (simp add: validate_source_type_def VALID_SOURCE_TYPES_def)
  have 2: "validate_identifier_type ''arxiv''"
    by (simp add: validate_identifier_type_def VALID_IDENTIFIER_TYPES_def)
  have 3: "\<forall>r\<in>set (sources two_sources).
      \<not> (s_type r = ''book'' \<and> map_of (s_identifiers r) ''arxiv'' = Some ''1111.1111'')"
    by (simp add: two_sources_def)
  have 4: "''id-C'' \<notin> set (map s_id (sources two_sources))"
    by (simp add: two_sources_def)
  show ?thesis
    by (rule add_source_twice_conflict [OF 1 2 3 4])
qed

subsection \<open>Reading back a new source\<close>

text \<open>
  C2. When \<open>add_source\<close> succeeds on a store whose notes and links all belong to
  sources of the store, \<open>get_source_by_id\<close> on the returned id gives a source with the
  title and type of the call, the identifiers \<open>{identifier_type: identifier_value}\<close>,
  the status \<open>unread\<close>, no note and no link.
\<close>

theorem get_source_by_id_after_add_source:
  assumes "fst (add_source db new_id now title ty it iv) = Inr sid"
    and "references_ok db"
  shows "get_source_by_id (snd (add_source db new_id now title ty it iv)) sid =
    Some \<lparr>src_id = sid, src_title = title, src_type = ty, src_identifiers = [(it, iv)],
          src_status = ''unread'', src_created_at = now, src_notes = [],
          src_entity_links = []\<rparr>"
proof -
  from add_source_Inr [OF assms(1)]
  have v: "validate_source_type ty" "validate_identifier_type it"
    "find_source_by_identifier db it iv ty = None"
    and fresh: "new_id \<notin> set (map s_id (sources db))" and sid: "sid = new_id"
    by simp_all
  let ?row = "\<lparr>s_id = new_id, s_title = title, s_type = ty, s_identifiers = [(it, iv)],
         s_status = ''unread'', s_created_at = now\<rparr>"
  have r: "add_source db new_id now title ty it iv = (Inr new_id, db\<lparr>sources := sources db @ [?row]\<rparr>)"
    by (rule add_source_ok [OF v fresh])
  have "find (\<lambda>r. s_id r = new_id) (sources db) = None"
    using fresh by (auto simp: find_None_iff)
  then have f: "find (\<lambda>r. s_id r = new_id) (sources db @ [?row]) = Some ?row"
    by (simp add: find_append)
  have n: "filter (\<lambda>n. n_source_id n = new_id) (source_notes db) = []"
    using assms(2) fresh by (auto simp: references_ok_def list_all_iff filter_empty_conv)
  have l: "filter (\<lambda>l. l_source_id l = new_id) (source_entity_links db) = []"
    using assms(2) fresh by (auto simp: references_ok_def list_all_iff filter_empty_conv)
  show ?thesis
    unfolding r sid get_source_by_id_def get_db_connection_def
    using f n l by (simp add: Let_def order_by_created_at_desc_def)
qed

subsection \<open>Outcomes of the mutating operations\<close>

lemma add_source_error:
  "fst (add_source db new_id now title ty it iv) = Inl e \<Longrightarrow>
     snd (add_source db new_id now title ty it iv) = db"
  unfolding add_source_def insert_source_def get_db_connection_def
  by (auto simp: Let_def close_def split: if_splits option.splits sum.splits)

lemma add_source_success:
  "fst (add_source db new_id now title ty it iv) = Inr sid \<Longrightarrow>
     snd (add_source db new_id now title ty it iv) = db\<lparr>sources := sources db @
       [\<lparr>s_id = sid, s_title = title, s_type = ty, s_identifiers = [(it, iv)],
         s_status = ''unread'', s_created_at = now\<rparr>]\<rparr>"
  using add_source_Inr [of db new_id now title ty it iv sid]
    add_source_ok [of ty it db iv new_id now title] by simp

lemma add_note_error:
  "fst (add_note db now sid t c) = Inl e \<Longrightarrow> snd (add_note db now sid t c) = db"
  unfolding add_note_def insert_note_def get_db_connection_def
  by (auto simp: Let_def close_def split: if_splits option.splits sum.splits)

lemma add_note_success:
  "fst (add_note db now sid t c) = Inr ok \<Longrightarrow>
     snd (add_note db now sid t c) = db\<lparr>source_notes := source_notes db @
    [\<lparr>n_source_id = sid, n_note_title = t, n_content = c, n_created_at = now\<rparr>]\<rparr>
    \<and> sid \<in> set (map s_id (sources db))"
  unfolding add_note_def insert_note_def get_db_connection_def
  by (auto simp: Let_def close_def commit_def find_None_iff split: if_splits option.splits sum.splits)

lemma update_status_error:
  "fst (update_status db sid st) = Inl e \<Longrightarrow> snd (update_status db sid st) = db"
  unfolding update_status_def update_source_status_def get_db_connection_def
  by (auto simp: Let_def close_def split: if_splits option.splits sum.splits)

lemma update_status_success:
  "fst (update_status db sid st) = Inr ok \<Longrightarrow>
     snd (update_status db sid st) = db\<lparr>sources :=
        map (\<lambda>r. if s_id r = sid then r\<lparr>s_status := st\<rparr> else r) (sources db)\<rparr>"
  unfolding update_status_def update_source_status_def get_db_connection_def
  by (auto simp: Let_def close_def commit_def split: if_splits option.splits sum.splits)

lemma link_to_entity_error:
  "fst (link_to_entity db now sid en rt nts) = Inl e \<Longrightarrow>
     snd (link_to_entity db now sid en rt nts) = db"
  unfolding link_to_entity_def insert_link_def get_db_connection_def
  by (auto simp: Let_def close_def split: if_splits option.splits sum.splits)

lemma link_to_entity_success:
  "fst (link_to_entity db now sid en rt nts) = Inr ok \<Longrightarrow>
     snd (link_to_entity db now sid en rt nts) = db\<lparr>source_entity_links :=
        source_entity_links db @
        [\<lparr>l_source_id = sid, l_entity_name = en, l_relation_type = rt, l_notes = nts,
          l_created_at = now\<rparr>]\<rparr>
     \<and> sid \<in> set (map s_id (sources db))"
  unfolding link_to_entity_def insert_link_def get_db_connection_def
  by (auto simp: Let_def close_def commit_def find_None_iff split: if_splits option.splits sum.splits)

text \<open>
  C3. Each of \<open>add_source\<close>, \<open>add_note\<close>, \<open>update_status\<close> and \<open>link_to_entity\<close>, on
  every store and every input, either fails and leaves the file exactly as it was, or
  succeeds and changes it by exactly its one row: the new source, the new note, the new
  status of the source, the new link. The file is what the closed connection leaves
  behind, so a statement that ran without a commit (the \<^verbatim>\<open>UPDATE\<close> that found no row)
  is dropped.
\<close>

theorem mutations_all_or_nothing:
  "(case add_source db new_id now title ty it iv of
      (Inl e, db') \<Rightarrow> db' = db
    | (Inr sid, db') \<Rightarrow> db' = db\<lparr>sources := sources db @
         [\<lparr>s_id = sid, s_title = title, s_type = ty, s_identifiers = [(it, iv)],
           s_status = ''unread'', s_created_at = now\<rparr>]\<rparr>) \<and>
   (case add_note db now source_id nt content of
      (Inl e, db') \<Rightarrow> db' = db
    | (Inr ok, db') \<Rightarrow> db' = db\<lparr>source_notes := source_notes db @
         [\<lparr>n_source_id = source_id, n_note_title = nt, n_content = content,
           n_created_at = now\<rparr>]\<rparr>) \<and>
   (case update_status db source_id st of
      (Inl e, db') \<Rightarrow> db' = db
    | (Inr ok, db') \<Rightarrow> db' = db\<lparr>sources :=
         map (\<lambda>r. if s_id r = source_id then r\<lparr>s_status := st\<rparr> else r) (sources db)\<rparr>) \<and>
   (case link_to_entity db now source_id en rt nts of
      (Inl e, db') \<Rightarrow> db' = db
    | (Inr ok, db') \<Rightarrow> db' = db\<lparr>source_entity_links := source_entity_links db @
         [\<lparr>l_source_id = source_id, l_entity_name = en, l_relation_type = rt,
           l_notes = nts, l_created_at = now\<rparr>]\<rparr>)"
proof -
  have 1: "(case add_source db new_id now title ty it iv of
      (Inl e, db') \<Rightarrow> db' = db
    | (Inr sid, db') \<Rightarrow> db' = db\<lparr>sources := sources db @
         [\<lparr>s_id = sid, s_title = title, s_type = ty, s_identifiers = [(it, iv)],
           s_status = ''unread'', s_created_at = now\<rparr>]\<rparr>)"
    using add_source_error [of db new_id now title ty it iv]
      add_source_success [of db new_id now title ty it iv]
    by (cases "add_source db new_id now title ty it iv") (auto split: sum.splits)
  have 2: "(case add_note db now source_id nt content of
      (Inl e, db') \<Rightarrow> db' = db
    | (Inr ok, db') \<Rightarrow> db' = db\<lparr>source_notes := source_notes db @
         [\<lparr>n_source_id = source_id, n_note_title = nt, n_content = content,
           n_created_at = now\<rparr>]\<rparr>)"
    using add_note_error [of db now source_id nt content]
      add_note_success [of db now source_id nt content]
    by (cases "add_note db now source_id nt content") (auto split: sum.splits)
  have 3: "(case update_status db source_id st of
      (Inl e, db') \<Rightarrow> db' = db
    | (Inr ok, db') \<Rightarrow> db' = db\<lparr>sources :=
         map (\<lambda>r. if s_id r = source_id then r\<lparr>s_status := st\<rparr> else r) (sources db)\<rparr>)"
    using update_status_error [of db source_id st]
      update_status_success [of db source_id st]
    by (cases "update_status db source_id st") (auto split: sum.splits)
  have 4: "(case link_to_entity db now source_id en rt nts of
      (Inl e, db') \<Rightarrow> db' = db
    | (Inr ok, db') \<Rightarrow> db' = db\<lparr>source_entity_links := source_entity_links db @
         [\<lparr>l_source_id = source_id, l_entity_name = en, l_relation_type = rt,
           l_notes = nts, l_created_at = now\<rparr>]\<rparr>)"
    using link_to_entity_error [of db now source_id en rt nts]
      link_to_entity_success [of db now source_id en rt nts]
    by (cases "link_to_entity db now source_id en rt nts") (auto split: sum.splits)
  from 1 2 3 4 show ?thesis by blast
qed

subsection \<open>Concrete runs on the empty store\<close>

lemma valid_paper: "validate_source_type ''paper''"
  by (simp add: validate_source_type_def VALID_SOURCE_TYPES_def)

lemma valid_arxiv: "validate_identifier_type ''arxiv''"
  by (simp add: validate_identifier_type_def VALID_IDENTIFIER_TYPES_def)

lemma add_paper_empty:
  "add_source empty_database ''id-1'' 5 title ''paper'' ''arxiv'' ''1234.5678'' =
    (Inr ''id-1'', \<lparr>sources = [\<lparr>s_id = ''id-1'', s_title = title, s_type = ''paper'',
       s_identifiers = [(''arxiv'', ''1234.5678'')], s_status = ''unread'', s_created_at = 5\<rparr>],
      source_notes = [], source_entity_links = []\<rparr>)"
proof -
  have 3: "find_source_by_identifier empty_database ''arxiv'' ''1234.5678'' ''paper'' = None"
    by (simp add: find_source_by_identifier_def get_db_connection_def empty_database_def)
  have 4: "''id-1'' \<notin> set (map s_id (sources empty_database))"
    by (simp add: empty_database_def)
  show ?thesis
    using add_source_ok [OF valid_paper valid_arxiv 3 4, of 5 title]
    by (simp add: empty_database_def)
qed

theorem get_source_by_id_after_add_source_witness:
  "fst (add_source empty_database ''id-1'' 5 ''Test Paper'' ''paper'' ''arxiv'' ''1234.5678'')
     = Inr ''id-1'' \<and> references_ok empty_database \<and>
   get_source_by_id
     (snd (add_source empty_database ''id-1'' 5 ''Test Paper'' ''paper'' ''arxiv'' ''1234.5678''))
     ''id-1'' =
    Some \<lparr>src_id = ''id-1'', src_title = ''Test Paper'', src_type = ''paper'',
          src_identifiers = [(''arxiv'', ''1234.5678'')], src_status = ''unread'',
          src_created_at = 5, src_notes = [], src_entity_links = []\<rparr>"
proof -
  have 1: "fst (add_source empty_database ''id-1'' 5 ''Test Paper'' ''paper'' ''arxiv'' ''1234.5678'')
     = Inr ''id-1''"
    by (simp add: add_paper_empty)
  have 2: "references_ok empty_database"
    by (simp add: references_ok_def empty_database_def)
  show ?thesis
    using 1 2 get_source_by_id_after_add_source [OF 1 2] by simp
qed

theorem mutations_all_or_nothing_witness:
  "snd (add_source empty_database ''id-1'' 5 ''Test'' ''invalid_type'' ''arxiv'' ''1234.5678'')
     = empty_database \<and>
   snd (add_note empty_database 5 ''id-1'' ''Summary'' ''text'') = empty_database \<and>
   snd (update_status empty_database ''id-1'' ''completed'') = empty_database \<and>
   snd (link_to_entity empty_database 5 ''id-1'' ''concept'' ''discusses'' None) = empty_database"
proof -
  have 1: "fst (add_source empty_database ''id-1'' 5 ''Test'' ''invalid_type'' ''arxiv'' ''1234.5678'')
     = Inl (Invalid_source_type ''invalid_type'')"
    by (simp add: add_source_def validate_source_type_def VALID_SOURCE_TYPES_def)
  have 2: "fst (add_note empty_database 5 ''id-1'' ''Summary'' ''text'') = Inl (Source_not_found ''id-1'')"
    by (simp add: add_note_def get_db_connection_def empty_database_def Let_def)
  have 3: "fst (update_status empty_database ''id-1'' ''completed'') = Inl (Source_not_found ''id-1'')"
    by (simp add: update_status_def update_source_status_def get_db_connection_def
        empty_database_def Let_def validate_status_def VALID_STATUS_VALUES_def)
  have 4: "fst (link_to_entity empty_database 5 ''id-1'' ''concept'' ''discusses'' None)
     = Inl (Source_not_found ''id-1'')"
    by (simp add: link_to_entity_def get_db_connection_def empty_database_def Let_def
        validate_relation_type_def VALID_RELATION_TYPES_def)
  show ?thesis
    using 1 2 3 4
      mutations_all_or_nothing [where db = empty_database and new_id = "''id-1''"
        and now = 5 and title = "''Test''" and ty = "''invalid_type''" and it = "''arxiv''"
        and iv = "''1234.5678''" and source_id = "''id-1''" and nt = "''Summary''"
        and content = "''text''" and st = "''completed''" and en = "''concept''"
        and rt = "''discusses''" and nts = None]
    by (auto split: prod.splits sum.splits)
qed

subsection \<open>Note titles are unique per source\<close>

text \<open>
  C4. Let A and B be two different sources of the store, neither with a note titled T.
  Then \<open>add_note\<close> with title T succeeds on A, then succeeds on B, and a further
  \<open>add_note\<close> with title T on A fails with the conflict error and changes nothing.
\<close>

theorem note_titles_unique_per_source:
  assumes "A \<noteq> B"
    and "A \<in> set (map s_id (sources db))" and "B \<in> set (map s_id (sources db))"
    and "(A, T) \<notin> set (map (\<lambda>n. (n_source_id n, n_note_title n)) (source_notes db))"
    and "(B, T) \<notin> set (map (\<lambda>n. (n_source_id n, n_note_title n)) (source_notes db))"
  shows "let r1 = add_note db now1 A T content1;
             r2 = add_note (snd r1) now2 B T content2;
             r3 = add_note (snd r2) now3 A T content3
         in fst r1 = Inr True \<and> fst r2 = Inr True \<and>
            fst r3 = Inl (Note_already_exists T) \<and>
            kind_of (Note_already_exists T) = ConflictError \<and>
            snd r3 = snd r2"
proof -
  let ?n1 = "\<lparr>n_source_id = A, n_note_title = T, n_content = content1, n_created_at = now1\<rparr>"
  let ?n2 = "\<lparr>n_source_id = B, n_note_title = T, n_content = content2, n_created_at = now2\<rparr>"
  let ?db1 = "db\<lparr>source_notes := source_notes db @ [?n1]\<rparr>"
  let ?db2 = "?db1\<lparr>source_notes := source_notes ?db1 @ [?n2]\<rparr>"
  have r1: "add_note db now1 A T content1 = (Inr True, ?db1)"
    by (rule add_note_ok [OF assms(2) assms(4)])
  have B1: "B \<in> set (map s_id (sources ?db1))"
    using assms(3) by simp
  have fresh1: "(B, T) \<notin> set (map (\<lambda>n. (n_source_id n, n_note_title n)) (source_notes ?db1))"
    using assms(1,5) by auto
  have r2: "add_note ?db1 now2 B T content2 = (Inr True, ?db2)"
    by (rule add_note_ok [OF B1 fresh1])
  have A2: "A \<in> set (map s_id (sources ?db2))"
    using assms(2) by simp
  have dup: "(A, T) \<in> set (map (\<lambda>n. (n_source_id n, n_note_title n)) (source_notes ?db2))"
    by simp
  have r3: "add_note ?db2 now3 A T content3 = (Inl (Note_already_exists T), ?db2)"
    by (rule add_note_conflict [OF A2 dup])
  show ?thesis
    unfolding Let_def r1 snd_conv r2 r3 fst_conv by simp
qed

subsection \<open>Status updates\<close>




lemma ids_map_status:
  "map s_id (map (\<lambda>r. if s_id r = sid then r\<lparr>s_status := st\<rparr> else r) rows) = map s_id rows"
  by (induction rows) auto





subsection \<open>Concrete runs on a store with two sources\<close>

theorem note_titles_unique_per_source_witness:
  "let r1 = add_note two_sources 3 ''id-A'' ''Summary'' ''first'';
       r2 = add_note (snd r1) 4 ''id-B'' ''Summary'' ''second'';
       r3 = add_note (snd r2) 5 ''id-A'' ''Summary'' ''third''
   in fst r1 = Inr True \<and> fst r2 = Inr True \<and>
      fst r3 = Inl (Note_already_exists ''Summary'') \<and>
      kind_of (Note_already_exists ''Summary'') = ConflictError \<and>
      snd r3 = snd r2"
proof -
  have 1: "''id-A'' \<noteq> ''id-B''" by simp
  have 2: "''id-A'' \<in> set (map s_id (sources two_sources))"
    by (simp add: two_sources_def)
  have 3: "''id-B'' \<in> set (map s_id (sources two_sources))"
    by (simp add: two_sources_def)
  have 4: "(''id-A'', ''Summary'') \<notin>
      set (map (\<lambda>n. (n_source_id n, n_note_title n)) (source_notes two_sources))"
    by (simp add: two_sources_def)
  have 5: "(''id-B'', ''Summary'') \<notin>
      set (map (\<lambda>n. (n_source_id n, n_note_title n)) (source_notes two_sources))"
    by (simp add: two_sources_def)
  show ?thesis
    by (rule note_titles_unique_per_source [OF 1 2 3 4 5])
qed


subsection \<open>Titles are stored as given\<close>

text \<open>
  C9, as the code has it. \<open>add_source\<close> checks the two types and the identity, and never
  looks at the title: for types of the vocabularies, a store without a source of the
  same identity and a fresh id, it succeeds for every title, the empty one included,
  and the new row of the store carries exactly that title.
\<close>

theorem add_source_keeps_any_title:
  assumes "validate_source_type ty" and "validate_identifier_type it"
    and "find_source_by_identifier db it iv ty = None"
    and "new_id \<notin> set (map s_id (sources db))"
  shows "fst (add_source db new_id now title ty it iv) = Inr new_id \<and>
    map (\<lambda>r. (s_id r, s_title r)) (sources (snd (add_source db new_id now title ty it iv))) =
      map (\<lambda>r. (s_id r, s_title r)) (sources db) @ [(new_id, title)]"
  by (simp add: add_source_ok [OF assms])

theorem add_source_keeps_any_title_witness:
  "fst (add_source empty_database ''id-1'' 5 ''Test Paper'' ''paper'' ''arxiv'' ''1234.5678'')
     = Inr ''id-1'' \<and>
   map (\<lambda>r. (s_id r, s_title r))
     (sources (snd (add_source empty_database ''id-1'' 5 ''Test Paper'' ''paper'' ''arxiv''
        ''1234.5678''))) = [(''id-1'', ''Test Paper'')]"
proof -
  have 3: "find_source_by_identifier empty_database ''arxiv'' ''1234.5678'' ''paper'' = None"
    by (simp add: find_source_by_identifier_def get_db_connection_def empty_database_def)
  have 4: "''id-1'' \<notin> set (map s_id (sources empty_database))"
    by (simp add: empty_database_def)
  show ?thesis
    using add_source_keeps_any_title [OF valid_paper valid_arxiv 3 4, of 5 "''Test Paper''"]
    by (simp add: empty_database_def)
qed

text \<open>
  The claim of C9 fails on the empty store: \<open>add_source\<close> with the empty title succeeds,
  and the store then holds a source whose title is empty.
\<close>

theorem add_source_empty_title_counterexample:
  "fst (add_source empty_database ''id-1'' 5 [] ''paper'' ''arxiv'' ''1234.5678'') = Inr ''id-1'' \<and>
   map s_title
     (sources (snd (add_source empty_database ''id-1'' 5 [] ''paper'' ''arxiv'' ''1234.5678'')))
     = [[]]"
  by (simp add: add_paper_empty)

subsection \<open>What a history of calls preserves\<close>

lemma perform_cases:
  obtains (failed) "perform x db = (False, db)"
  | (added_source) new_id now title ty it iv where
      "x = Add_source new_id now title ty it iv"
      "perform x db = (True, db\<lparr>sources := sources db @
         [\<lparr>s_id = new_id, s_title = title, s_type = ty, s_identifiers = [(it, iv)],
           s_status = ''unread'', s_created_at = now\<rparr>]\<rparr>)"
  | (added_note) now sid t c where
      "x = Add_note now sid t c" "sid \<in> set (map s_id (sources db))"
      "perform x db = (True, db\<lparr>source_notes := source_notes db @
         [\<lparr>n_source_id = sid, n_note_title = t, n_content = c, n_created_at = now\<rparr>]\<rparr>)"
  | (updated) sid st where
      "x = Update_status sid st"
      "perform x db = (True, db\<lparr>sources :=
         map (\<lambda>r. if s_id r = sid then r\<lparr>s_status := st\<rparr> else r) (sources db)\<rparr>)"
  | (linked) now sid en rt nts where
      "x = Link_to_entity now sid en rt nts" "sid \<in> set (map s_id (sources db))"
      "perform x db = (True, db\<lparr>source_entity_links := source_entity_links db @
         [\<lparr>l_source_id = sid, l_entity_name = en, l_relation_type = rt, l_notes = nts,
           l_created_at = now\<rparr>]\<rparr>)"
proof (cases x)
  case (Add_source new_id now title ty it iv)
  obtain r d where eq: "add_source db new_id now title ty it iv = (r, d)"
    by (cases "add_source db new_id now title ty it iv")
  show ?thesis
  proof (cases r)
    case (Inl e)
    with add_source_error [of db new_id now title ty it iv e] eq have "d = db" by simp
    with Inl eq Add_source have "perform x db = (False, db)" by simp
    then show ?thesis by (rule failed)
  next
    case (Inr sid)
    with add_source_Inr [of db new_id now title ty it iv sid] eq have "sid = new_id" by simp
    with Inr add_source_success [of db new_id now title ty it iv sid] eq Add_source
    show ?thesis
      by (intro added_source [of new_id now title ty it iv]) simp_all
  qed
next
  case (Add_note now sid t c)
  obtain r d where eq: "add_note db now sid t c = (r, d)"
    by (cases "add_note db now sid t c")
  show ?thesis
  proof (cases r)
    case (Inl e)
    with add_note_error [of db now sid t c e] eq have "d = db" by simp
    with Inl eq Add_note have "perform x db = (False, db)" by simp
    then show ?thesis by (rule failed)
  next
    case (Inr ok)
    with add_note_success [of db now sid t c ok] eq Add_note show ?thesis
      by (intro added_note [of now sid t c]) simp_all
  qed
next
  case (Update_status sid st)
  obtain r d where eq: "update_status db sid st = (r, d)"
    by (cases "update_status db sid st")
  show ?thesis
  proof (cases r)
    case (Inl e)
    with update_status_error [of db sid st e] eq have "d = db" by simp
    with Inl eq Update_status have "perform x db = (False, db)" by simp
    then show ?thesis by (rule failed)
  next
    case (Inr ok)
    with update_status_success [of db sid st ok] eq Update_status show ?thesis
      by (intro updated [of sid st]) simp_all
  qed
next
  case (Link_to_entity now sid en rt nts)
  obtain r d where eq: "link_to_entity db now sid en rt nts = (r, d)"
    by (cases "link_to_entity db now sid en rt nts")
  show ?thesis
  proof (cases r)
    case (Inl e)
    with link_to_entity_error [of db now sid en rt nts e] eq have "d = db" by simp
    with Inl eq Link_to_entity have "perform x db = (False, db)" by simp
    then show ?thesis by (rule failed)
  next
    case (Inr ok)
    with link_to_entity_success [of db now sid en rt nts ok] eq Link_to_entity show ?thesis
      by (intro linked [of now sid en rt nts]) simp_all
  qed
qed

lemma perform_counts:
  assumes "perform x db = (ok, db')"
  shows "length (sources db') =
           length (sources db) + (if ok \<and> is_Add_source x then 1 else 0) \<and>
         length (source_notes db') =
           length (source_notes db) + (if ok \<and> is_Add_note x then 1 else 0) \<and>
         length (source_entity_links db') =
           length (source_entity_links db) + (if ok \<and> is_Link_to_entity x then 1 else 0)"
  using assms by (cases x db rule: perform_cases) auto

lemma perform_references_ok:
  assumes "perform x db = (ok, db')" and "references_ok db"
  shows "references_ok db'"
  using assms
  by (cases x db rule: perform_cases)
     (auto simp: references_ok_def list_all_iff ids_map_status simp del: map_map)

lemma run_counts:
  "run ops db = (done_ops, db') \<Longrightarrow>
     length (sources db') = length (sources db) + length (filter is_Add_source done_ops) \<and>
     length (source_notes db') = length (source_notes db) + length (filter is_Add_note done_ops) \<and>
     length (source_entity_links db') =
       length (source_entity_links db) + length (filter is_Link_to_entity done_ops)"
proof (induction ops arbitrary: db done_ops db')
  case Nil
  then show ?case by simp
next
  case (Cons x ops)
  obtain ok db1 where p: "perform x db = (ok, db1)"
    by (cases "perform x db")
  obtain d2 db2 where r: "run ops db1 = (d2, db2)"
    by (cases "run ops db1")
  from Cons.prems p r have eq: "db' = db2" "done_ops = (if ok then x # d2 else d2)"
    by simp_all
  from Cons.IH [OF r] perform_counts [OF p] show ?case
    unfolding eq by auto
qed

lemma references_ok_run:
  "references_ok db \<Longrightarrow> references_ok (snd (run ops db))"
proof (induction ops arbitrary: db)
  case Nil
  then show ?case by simp
next
  case (Cons x ops)
  obtain ok db1 where p: "perform x db = (ok, db1)"
    by (cases "perform x db")
  from perform_references_ok [OF p Cons.prems] have "references_ok db1" .
  from Cons.IH [OF this] p show ?case
    by (simp add: case_prod_beta)
qed

lemma references_ok_empty: "references_ok empty_database"
  by (simp add: references_ok_def empty_database_def)

subsection \<open>Statistics\<close>

lemma sum_group_by_count: "sum_list (map snd (group_by_count column)) = length column"
proof -
  have "sum_list (map snd (group_by_count column)) =
      sum_list (map (count_list column) (remdups column))"
    by (simp add: group_by_count_def comp_def)
  also have "\<dots> = sum (count_list column) (set column)"
    by (simp add: sum_list_distinct_conv_sum_set)
  also have "\<dots> = length column"
    by (rule sum_count_set) simp_all
  finally show ?thesis .
qed

lemma keys_group_by_count:
  "set (map fst (group_by_count column)) = set column \<and> distinct (map fst (group_by_count column))"
  by (simp add: group_by_count_def comp_def)

lemma group_by_count_positive:
  "(v, n) \<in> set (group_by_count column) \<Longrightarrow> n = count_list column v \<and> 0 < n"
  using count_list_0_iff [of column v] by (auto simp: group_by_count_def)

text \<open>
  C8. Run any sequence of calls of the mutating operations on the empty store, and let N,
  M and K be the numbers of calls of \<open>add_source\<close>, \<open>add_note\<close> and \<open>link_to_entity\<close>
  that succeeded. Then \<open>get_database_stats\<close> reports N sources, M notes and K links;
  the counts by type add up to N, and so do the counts by status; the keys of the two
  mappings are exactly the types and the statuses that occur in the store, once each.
\<close>

theorem get_database_stats_totals:
  "(case run ops empty_database of
      (done_ops, db) \<Rightarrow>
        (let stats = get_database_stats db;
             N = length (filter is_Add_source done_ops);
             M = length (filter is_Add_note done_ops);
             K = length (filter is_Link_to_entity done_ops)
         in total_sources stats = N \<and> total_notes stats = M \<and>
            total_entity_links stats = K \<and>
            sum_list (map snd (sources_by_type stats)) = N \<and>
            sum_list (map snd (sources_by_status stats)) = N \<and>
            distinct (map fst (sources_by_type stats)) \<and>
            set (map fst (sources_by_type stats)) = set (map s_type (sources db)) \<and>
            distinct (map fst (sources_by_status stats)) \<and>
            set (map fst (sources_by_status stats)) = set (map s_status (sources db))))"
proof -
  obtain done_ops db where r: "run ops empty_database = (done_ops, db)"
    by (cases "run ops empty_database")
  from run_counts [OF r]
  have n: "length (sources db) = length (filter is_Add_source done_ops)"
    and m: "length (source_notes db) = length (filter is_Add_note done_ops)"
    and k: "length (source_entity_links db) = length (filter is_Link_to_entity done_ops)"
    by (simp_all add: empty_database_def)
  show ?thesis
    unfolding r
    by (simp add: Let_def get_database_stats_def get_db_connection_def sum_group_by_count
        keys_group_by_count n m k del: set_map)
qed

subsection \<open>Title search\<close>

lemma collect_matches_filter:
  "collect_matches q srcs =
     map (\<lambda>s. (s, the (match_score q (sum_title s))))
       (filter (\<lambda>s. match_score q (sum_title s) \<noteq> None) srcs)"
  by (induction srcs) (auto split: option.splits)

lemma match_score_values:
  "match_score q t = Some n \<Longrightarrow> n = 100 \<or> n = 50 \<or> n = 25"
  by (auto simp: match_score_def Let_def split: if_splits)

lemma sorted_three_keys:
  fixes f :: "'a \<Rightarrow> int"
  assumes "sorted (map f ys)" and "\<forall>y\<in>set ys. f y = a \<or> f y = b \<or> f y = c"
    and "a < b" and "b < c"
  shows "ys = filter (\<lambda>y. f y = a) ys @ filter (\<lambda>y. f y = b) ys @ filter (\<lambda>y. f y = c) ys"
  using assms(1,2)
proof (induction ys)
  case Nil
  then show ?case by simp
next
  case (Cons y ys)
  from Cons.prems have le: "\<forall>z\<in>set ys. f y \<le> f z" and s: "sorted (map f ys)"
    and v: "\<forall>z\<in>set ys. f z = a \<or> f z = b \<or> f z = c" and vy: "f y = a \<or> f y = b \<or> f y = c"
    by auto
  note IH = Cons.IH [OF s v]
  from vy show ?case
  proof (elim disjE)
    assume "f y = a"
    with IH assms(3,4) show ?thesis by auto
  next
    assume fy: "f y = b"
    with le assms(3) have "filter (\<lambda>y. f y = a) ys = []"
      by (auto simp: filter_empty_conv)
    with IH fy assms(3,4) show ?thesis by auto
  next
    assume fy: "f y = c"
    with le assms(3,4) have "filter (\<lambda>y. f y = a) ys = []" "filter (\<lambda>y. f y = b) ys = []"
      by (auto simp: filter_empty_conv)
    with IH fy assms(3,4) show ?thesis by auto
  qed
qed

lemma stable_sort_three_keys:
  fixes f :: "'a \<Rightarrow> int"
  assumes "\<forall>y\<in>set ys. f y = a \<or> f y = b \<or> f y = c" and "a < b" and "b < c"
  shows "sort_key f ys =
    filter (\<lambda>y. f y = a) ys @ filter (\<lambda>y. f y = b) ys @ filter (\<lambda>y. f y = c) ys"
proof -
  have "sort_key f ys = filter (\<lambda>y. f y = a) (sort_key f ys) @
      filter (\<lambda>y. f y = b) (sort_key f ys) @ filter (\<lambda>y. f y = c) (sort_key f ys)"
    by (rule sorted_three_keys [OF _ _ assms(2,3)]) (use assms(1) in auto)
  then show ?thesis
    by (simp only: sort_key_stable)
qed

lemma search_by_score:
  "search_sources_by_title srcs query =
     filter (\<lambda>s. match_score (lower query) (sum_title s) = Some 100) srcs @
     filter (\<lambda>s. match_score (lower query) (sum_title s) = Some 50) srcs @
     filter (\<lambda>s. match_score (lower query) (sum_title s) = Some 25) srcs"
proof -
  let ?q = "lower query"
  let ?ms = "collect_matches ?q srcs"
  have vals: "\<forall>m\<in>set ?ms. - snd m = -100 \<or> - snd m = -50 \<or> - snd m = -25"
    by (auto simp: collect_matches_filter dest: match_score_values)
  have pick: "map fst (filter (\<lambda>m. - snd m = - n) ?ms) =
      filter (\<lambda>s. match_score ?q (sum_title s) = Some n) srcs" for n
    by (induction srcs) (auto split: option.splits)
  have "sort_key (\<lambda>m. - snd m) ?ms =
      filter (\<lambda>m. - snd m = - 100) ?ms @ filter (\<lambda>m. - snd m = - 50) ?ms @
      filter (\<lambda>m. - snd m = - 25) ?ms"
    by (rule stable_sort_three_keys [OF vals]) simp_all
  then show ?thesis
    unfolding search_sources_by_title_def Let_def
    by (simp only: map_append pick)
qed

text \<open>Lowercasing, against the table of letters.\<close>

lemma lower_length: "length (lower s) = length s"
  by (simp add: lower_def)

lemma lower_append: "lower (s @ t) = lower s @ lower t"
  by (simp add: lower_def)

lemma lower_capital_letters: "lower capital_letters = small_letters"
  by code_simp

lemma capital_letter_codes:
  "map of_char capital_letters = [65..<91] @ [192..<215] @ [216..<223 :: nat]"
  by code_simp

lemma lower_char_other:
  assumes "c \<notin> set capital_letters"
  shows "lower_char c = c"
proof (rule ccontr)
  assume "lower_char c \<noteq> c"
  then have "(65 \<le> (of_char c :: nat) \<and> (of_char c :: nat) \<le> 90) \<or>
      (192 \<le> (of_char c :: nat) \<and> (of_char c :: nat) \<le> 222 \<and> (of_char c :: nat) \<noteq> 215)"
    by (auto simp: lower_char_def Let_def split: if_splits)
  then have "(of_char c :: nat) \<in> {65..<91} \<union> {192..<215} \<union> {216..<223}"
    by auto
  then have "(of_char c :: nat) \<in> set ([65..<91] @ [192..<215] @ [216..<223])"
    by (simp only: set_append set_upt Un_assoc)
  then have "(of_char c :: nat) \<in> set (map of_char capital_letters)"
    by (simp only: capital_letter_codes)
  then obtain d where "d \<in> set capital_letters" and "(of_char d :: nat) = of_char c"
    by auto
  with assms show False
    by simp
qed

text \<open>Splitting into words, against the table of white space.\<close>

lemma whitespace_codes:
  "map of_char whitespace_characters = [9..<14] @ [28..<33] @ [133, 160 :: nat]"
  by code_simp

lemma isspace_iff: "isspace c \<longleftrightarrow> c \<in> set whitespace_characters"
proof -
  have "isspace c \<longleftrightarrow> (of_char c :: nat) \<in> {9..<14} \<union> {28..<33} \<union> {133, 160}"
    by (auto simp: isspace_def Let_def)
  also have "\<dots> \<longleftrightarrow> (of_char c :: nat) \<in> set ([9..<14] @ [28..<33] @ [133, 160])"
    by (simp only: set_append set_upt Un_assoc list.set)
  also have "\<dots> \<longleftrightarrow> (of_char c :: nat) \<in> set (map of_char whitespace_characters)"
    by (simp only: whitespace_codes)
  also have "\<dots> \<longleftrightarrow> c \<in> set whitespace_characters"
    by auto
  finally show ?thesis .
qed

lemma split_from_no_space:
  "\<forall>c\<in>set s. \<not> isspace c \<Longrightarrow> split_from w s = (if w @ s = [] then [] else [w @ s])"
  by (induction s arbitrary: w) auto

lemma split_from_space:
  "isspace sp \<Longrightarrow> split_from w (a @ sp # b) = split_from w a @ split_from [] b"
  by (induction a arbitrary: w) auto

lemma split_Nil: "split [] = []"
  by (simp add: split_def)

lemma split_word:
  "w \<noteq> [] \<Longrightarrow> \<forall>c\<in>set w. c \<notin> set whitespace_characters \<Longrightarrow> split w = [w]"
  by (simp add: split_def split_from_no_space isspace_iff)

lemma split_space:
  "sp \<in> set whitespace_characters \<Longrightarrow> split (a @ sp # b) = split a @ split b"
  by (simp add: split_def split_from_space isspace_iff)

text \<open>
  C7. The search returns, in this order: the sources whose lowercased title equals the
  lowercased query; then those whose lowercased title is different but contains it;
  then those whose lowercased title does not contain it but contains one of its words.
  Each group is in the order of the input, and no other source is returned.

  Lowercased means: character by character (the length stays, and lowercasing goes
  through concatenation), every capital letter replaced by its small letter and every
  other character kept. The words of a string are its maximal runs without white space:
  the empty string has none, a non-empty string without white space is its only word,
  and the words of two strings joined by a white-space character are the words of the
  first followed by the words of the second.
\<close>

theorem search_sources_by_title_tiers:
  "search_sources_by_title srcs query =
     filter (\<lambda>s. lower (sum_title s) = lower query) srcs @
     filter (\<lambda>s. lower (sum_title s) \<noteq> lower query \<and>
                 sublist (lower query) (lower (sum_title s))) srcs @
     filter (\<lambda>s. \<not> sublist (lower query) (lower (sum_title s)) \<and>
                 (\<exists>word\<in>set (split (lower query)). sublist word (lower (sum_title s)))) srcs \<and>
   (length (lower s) = length s \<and>
    lower (s @ t) = lower s @ lower t \<and>
    lower capital_letters = small_letters \<and>
    (c \<notin> set capital_letters \<longrightarrow> lower [c] = [c])) \<and>
   (split [] = [] \<and>
    (w \<noteq> [] \<and> (\<forall>c\<in>set w. c \<notin> set whitespace_characters) \<longrightarrow> split w = [w]) \<and>
    (sp \<in> set whitespace_characters \<longrightarrow> split (a @ sp # b) = split a @ split b))"
proof -
  have 1: "(match_score (lower query) t = Some 100) \<longleftrightarrow> lower t = lower query" for t
    by (auto simp: match_score_def Let_def)
  have 2: "(match_score (lower query) t = Some 50) \<longleftrightarrow>
      lower t \<noteq> lower query \<and> sublist (lower query) (lower t)" for t
    by (auto simp: match_score_def Let_def)
  have 3: "(match_score (lower query) t = Some 25) \<longleftrightarrow>
      \<not> sublist (lower query) (lower t) \<and>
      (\<exists>word\<in>set (split (lower query)). sublist word (lower t))" for t
    by (auto simp: match_score_def Let_def list_ex_iff)
  have tiers: "search_sources_by_title srcs query =
     filter (\<lambda>s. lower (sum_title s) = lower query) srcs @
     filter (\<lambda>s. lower (sum_title s) \<noteq> lower query \<and>
                 sublist (lower query) (lower (sum_title s))) srcs @
     filter (\<lambda>s. \<not> sublist (lower query) (lower (sum_title s)) \<and>
                 (\<exists>word\<in>set (split (lower query)). sublist word (lower (sum_title s)))) srcs"
    by (simp only: search_by_score 1 2 3)
  have other: "c \<notin> set capital_letters \<longrightarrow> lower [c] = [c]"
    by (simp add: lower_def lower_char_other)
  have low: "length (lower s) = length s \<and> lower (s @ t) = lower s @ lower t \<and>
    lower capital_letters = small_letters \<and> (c \<notin> set capital_letters \<longrightarrow> lower [c] = [c])"
    using lower_length lower_append lower_capital_letters other by blast
  have spl: "split [] = [] \<and>
    (w \<noteq> [] \<and> (\<forall>c\<in>set w. c \<notin> set whitespace_characters) \<longrightarrow> split w = [w]) \<and>
    (sp \<in> set whitespace_characters \<longrightarrow> split (a @ sp # b) = split a @ split b)"
    using split_Nil split_word [of w] split_space [of sp a b] by blast
  from tiers low spl show ?thesis
    by (intro conjI)  (erule conjunct1 | erule conjunct2 | assumption | simp)+
qed

lemma lower_Nil_iff: "lower t = [] \<longleftrightarrow> t = []"
  by (simp add: lower_def)

text \<open>
  C10. For the empty query a source with an empty title scores as an exact match and
  every other source as a containment match. The search therefore returns every source
  of the input: those with an empty title first, then the others, each group in the
  order of the input; when no title is empty the result is the input itself.
\<close>

theorem search_empty_query:
  "match_score (lower []) t = (if t = [] then Some 100 else Some 50) \<and>
   search_sources_by_title srcs [] =
     filter (\<lambda>s. sum_title s = []) srcs @ filter (\<lambda>s. sum_title s \<noteq> []) srcs \<and>
   ((\<forall>s\<in>set srcs. sum_title s \<noteq> []) \<longrightarrow> search_sources_by_title srcs [] = srcs)"
proof -
  have m: "match_score (lower []) t = (if t = [] then Some 100 else Some 50)" for t
    by (auto simp: match_score_def Let_def lower_def)
  have s: "search_sources_by_title srcs [] =
     filter (\<lambda>s. sum_title s = []) srcs @ filter (\<lambda>s. sum_title s \<noteq> []) srcs"
    by (simp add: search_by_score m)
  have "search_sources_by_title srcs [] = srcs" if "\<forall>s\<in>set srcs. sum_title s \<noteq> []"
  proof -
    from that have "filter (\<lambda>s. sum_title s = []) srcs = []"
      "filter (\<lambda>s. sum_title s \<noteq> []) srcs = srcs"
      by (simp_all add: filter_empty_conv filter_id_conv)
    with s show ?thesis by simp
  qed
  with m s show ?thesis by blast
qed

subsection \<open>Listing sources\<close>

lemma order_by_created_at_desc_sorted:
  "sorted_wrt (\<lambda>a b. key b \<le> key a) (order_by_created_at_desc key rows)"
proof -
  have "sorted (map (\<lambda>r. - int (key r)) (sort_key (\<lambda>r. - int (key r)) rows))"
    by (rule sorted_sort_key)
  then show ?thesis
    by (simp add: order_by_created_at_desc_def sorted_map)
qed

lemma order_by_created_at_desc_mset:
  "mset (order_by_created_at_desc key rows) = mset rows"
  by (simp add: order_by_created_at_desc_def)

lemma sorted_wrt_take_drop:
  assumes "sorted_wrt P xs"
  shows "sorted_wrt P (take n xs) \<and> (\<forall>x\<in>set (take n xs). \<forall>y\<in>set (drop n xs). P x y)"
proof -
  have "sorted_wrt P (take n xs @ drop n xs)"
    using assms by simp
  then show ?thesis
    by (simp only: sorted_wrt_append) simp
qed

lemma sql_limit_overflow:
  "n < - 9223372036854775808 \<or> 9223372036854775807 < n \<Longrightarrow> sql_limit n xs = Inl OverflowError"
  by (simp add: sql_limit_def)

lemma sql_limit_in_range:
  assumes "- 9223372036854775808 \<le> n" and "n \<le> 9223372036854775807"
    and "sorted_wrt P xs"
  shows "\<exists>rows omitted. sql_limit n xs = Inr rows \<and>
           mset (rows @ omitted) = mset xs \<and>
           sorted_wrt P rows \<and>
           (\<forall>x\<in>set rows. \<forall>y\<in>set omitted. P x y) \<and>
           (n < 0 \<longrightarrow> omitted = []) \<and>
           (0 \<le> n \<longrightarrow> length rows = min (nat n) (length xs))"
proof (cases "n < 0")
  case True
  with assms show ?thesis
    by (intro exI [of _ xs] exI [of _ "[]"]) (simp add: sql_limit_def)
next
  case False
  have "mset (take (nat n) xs @ drop (nat n) xs) = mset xs"
    by (simp only: append_take_drop_id)
  with False assms(1,2) sorted_wrt_take_drop [OF assms(3), of "nat n"] show ?thesis
    by (intro exI [of _ "take (nat n) xs"] exI [of _ "drop (nat n) xs"])
      (simp add: sql_limit_def min.commute)
qed

lemma type_condition_invalid:
  "t \<noteq> [] \<Longrightarrow> \<not> validate_source_type t \<Longrightarrow> type_condition (Some t) = Inl (Invalid_source_type t)"
  by (simp add: type_condition_def)

lemma status_condition_invalid:
  "s \<noteq> [] \<Longrightarrow> \<not> validate_status s \<Longrightarrow> status_condition (Some s) = Inl (Invalid_status s)"
  by (simp add: status_condition_def)

lemma type_condition_ok:
  assumes "\<forall>t. source_type = Some t \<and> t \<noteq> [] \<longrightarrow> validate_source_type t"
  shows "\<exists>cs. type_condition source_type = Inr cs \<and>
    (\<forall>r. list_all (\<lambda>c. c r) cs \<longleftrightarrow>
       (case source_type of None \<Rightarrow> True | Some t \<Rightarrow> t = [] \<or> s_type r = t))"
  using assms by (cases source_type) (auto simp: type_condition_def)

lemma status_condition_ok:
  assumes "\<forall>s. status = Some s \<and> s \<noteq> [] \<longrightarrow> validate_status s"
  shows "\<exists>cs. status_condition status = Inr cs \<and>
    (\<forall>r. list_all (\<lambda>c. c r) cs \<longleftrightarrow>
       (case status of None \<Rightarrow> True | Some s \<Rightarrow> s = [] \<or> s_status r = s))"
  using assms by (cases status) (auto simp: status_condition_def)

lemma list_sources_ok:
  assumes "\<forall>t. source_type = Some t \<and> t \<noteq> [] \<longrightarrow> validate_source_type t"
    and "\<forall>s. status = Some s \<and> s \<noteq> [] \<longrightarrow> validate_status s"
  shows "list_sources db source_type status limit =
    (case sql_limit limit (order_by_created_at_desc s_created_at
            (filter (matches_filters source_type status) (sources db))) of
       Inl e \<Rightarrow> Inl e
     | Inr rows \<Rightarrow> Inr (map summary_of rows))"
proof -
  from type_condition_ok [OF assms(1)] obtain c1 where
    c1: "type_condition source_type = Inr c1"
    "\<And>r. list_all (\<lambda>c. c r) c1 \<longleftrightarrow>
       (case source_type of None \<Rightarrow> True | Some t \<Rightarrow> t = [] \<or> s_type r = t)"
    by blast
  from status_condition_ok [OF assms(2)] obtain c2 where
    c2: "status_condition status = Inr c2"
    "\<And>r. list_all (\<lambda>c. c r) c2 \<longleftrightarrow>
       (case status of None \<Rightarrow> True | Some s \<Rightarrow> s = [] \<or> s_status r = s)"
    by blast
  have "(\<lambda>r. list_all (\<lambda>c. c r) (c1 @ c2)) = matches_filters source_type status"
    by (rule ext) (simp add: c1(2) c2(2) matches_filters_def)
  then show ?thesis
    by (simp add: list_sources_def c1(1) c2(1) Let_def get_db_connection_def)
qed

text \<open>
  C6, as the code has it. A filter argument that is \<^verbatim>\<open>None\<close> or the empty string is not
  applied and not validated. A non-empty source type outside the vocabulary, or a
  non-empty status outside the vocabulary, makes \<open>list_sources\<close> fail with a validation
  error. Otherwise the limit decides. A limit outside the 64-bit signed integers makes
  the call fail with \<^verbatim>\<open>OverflowError\<close>. For a limit inside them, \<open>list_sources\<close>
  returns summaries of rows of the store that pass every given filter, newest first;
  the rows that pass and are left out are no newer than any returned row; a negative
  limit leaves none out, and a limit of at least zero returns as many rows as pass, up
  to the limit.
\<close>

theorem list_sources_outcomes:
  "(\<forall>t. source_type = Some t \<and> t \<noteq> [] \<and> \<not> validate_source_type t \<longrightarrow>
      list_sources db source_type status limit =
        Inl (DatabaseError_raised (Invalid_source_type t)) \<and>
      kind_of (Invalid_source_type t) = ValidationError) \<and>
   (\<forall>s. status = Some s \<and> s \<noteq> [] \<and> \<not> validate_status s \<longrightarrow>
      (\<exists>e. list_sources db source_type status limit = Inl (DatabaseError_raised e) \<and>
           kind_of e = ValidationError)) \<and>
   ((\<forall>t. source_type = Some t \<and> t \<noteq> [] \<longrightarrow> validate_source_type t) \<and>
    (\<forall>s. status = Some s \<and> s \<noteq> [] \<longrightarrow> validate_status s) \<and>
    (limit < - 9223372036854775808 \<or> 9223372036854775807 < limit) \<longrightarrow>
      list_sources db source_type status limit = Inl OverflowError) \<and>
   ((\<forall>t. source_type = Some t \<and> t \<noteq> [] \<longrightarrow> validate_source_type t) \<and>
    (\<forall>s. status = Some s \<and> s \<noteq> [] \<longrightarrow> validate_status s) \<and>
    - 9223372036854775808 \<le> limit \<and> limit \<le> 9223372036854775807 \<longrightarrow>
      (\<exists>rows omitted.
         list_sources db source_type status limit = Inr (map summary_of rows) \<and>
         mset (rows @ omitted) = mset (filter (matches_filters source_type status) (sources db)) \<and>
         sorted_wrt (\<lambda>a b. s_created_at b \<le> s_created_at a) rows \<and>
         (\<forall>x\<in>set rows. \<forall>y\<in>set omitted. s_created_at y \<le> s_created_at x) \<and>
         (limit < 0 \<longrightarrow> omitted = []) \<and>
         (0 \<le> limit \<longrightarrow> length rows =
            min (nat limit) (length (filter (matches_filters source_type status) (sources db))))))"
proof (intro conjI allI impI)
  fix t assume "source_type = Some t \<and> t \<noteq> [] \<and> \<not> validate_source_type t"
  then show "list_sources db source_type status limit =
      Inl (DatabaseError_raised (Invalid_source_type t))"
    by (simp add: list_sources_def type_condition_invalid)
next
  fix t show "kind_of (Invalid_source_type t) = ValidationError" by simp
next
  fix s assume a: "status = Some s \<and> s \<noteq> [] \<and> \<not> validate_status s"
  show "\<exists>e. list_sources db source_type status limit = Inl (DatabaseError_raised e) \<and>
      kind_of e = ValidationError"
  proof (cases "type_condition source_type")
    case (Inl e)
    then have "kind_of e = ValidationError"
      by (auto simp: type_condition_def split: option.splits if_splits)
    with Inl show ?thesis by (simp add: list_sources_def)
  next
    case (Inr cs)
    with a show ?thesis by (simp add: list_sources_def status_condition_invalid)
  qed
next
  assume a: "(\<forall>t. source_type = Some t \<and> t \<noteq> [] \<longrightarrow> validate_source_type t) \<and>
    (\<forall>s. status = Some s \<and> s \<noteq> [] \<longrightarrow> validate_status s) \<and>
    (limit < - 9223372036854775808 \<or> 9223372036854775807 < limit)"
  then have "list_sources db source_type status limit =
    (case sql_limit limit (order_by_created_at_desc s_created_at
            (filter (matches_filters source_type status) (sources db))) of
       Inl e \<Rightarrow> Inl e
     | Inr rows \<Rightarrow> Inr (map summary_of rows))"
    by (intro list_sources_ok) blast+
  with a show "list_sources db source_type status limit = Inl OverflowError"
    by (simp add: sql_limit_overflow)
next
  assume a: "(\<forall>t. source_type = Some t \<and> t \<noteq> [] \<longrightarrow> validate_source_type t) \<and>
    (\<forall>s. status = Some s \<and> s \<noteq> [] \<longrightarrow> validate_status s) \<and>
    - 9223372036854775808 \<le> limit \<and> limit \<le> 9223372036854775807"
  let ?wanted = "filter (matches_filters source_type status) (sources db)"
  let ?sorted = "order_by_created_at_desc s_created_at ?wanted"
  from a have lo: "- 9223372036854775808 \<le> limit" and hi: "limit \<le> 9223372036854775807"
    by simp_all
  from a have r: "list_sources db source_type status limit =
    (case sql_limit limit ?sorted of
       Inl e \<Rightarrow> Inl e
     | Inr rows \<Rightarrow> Inr (map summary_of rows))"
    by (intro list_sources_ok) blast+
  from sql_limit_in_range [where n = limit and xs = ?sorted
      and P = "\<lambda>a b. s_created_at b \<le> s_created_at a",
      OF lo hi order_by_created_at_desc_sorted]
  obtain rows omitted where
    l: "sql_limit limit ?sorted = (Inr rows :: DatabaseError raised + source_row list)"
    and p: "mset (rows @ omitted) = mset ?sorted"
    "sorted_wrt (\<lambda>a b. s_created_at b \<le> s_created_at a) rows"
    "\<forall>x\<in>set rows. \<forall>y\<in>set omitted. s_created_at y \<le> s_created_at x"
    "limit < 0 \<longrightarrow> omitted = []"
    "0 \<le> limit \<longrightarrow> length rows = min (nat limit) (length ?sorted)"
    by blast
  have len: "length ?sorted = length ?wanted"
    by (simp add: order_by_created_at_desc_def)
  have res: "list_sources db source_type status limit = Inr (map summary_of rows)"
    unfolding r l by simp
  show "\<exists>rows omitted.
         list_sources db source_type status limit = Inr (map summary_of rows) \<and>
         mset (rows @ omitted) = mset (filter (matches_filters source_type status) (sources db)) \<and>
         sorted_wrt (\<lambda>a b. s_created_at b \<le> s_created_at a) rows \<and>
         (\<forall>x\<in>set rows. \<forall>y\<in>set omitted. s_created_at y \<le> s_created_at x) \<and>
         (limit < 0 \<longrightarrow> omitted = []) \<and>
         (0 \<le> limit \<longrightarrow> length rows =
            min (nat limit) (length (filter (matches_filters source_type status) (sources db))))"
    using res p len
    by (intro exI [of _ rows] exI [of _ omitted]) (simp add: order_by_created_at_desc_mset)
qed

subsection \<open>Concrete listings, searches and statistics\<close>

lemma valid_unread: "validate_status ''unread''"
  by (simp add: validate_status_def VALID_STATUS_VALUES_def)

theorem list_sources_outcomes_witness:
  "\<not> validate_source_type ''invalid_type'' \<and>
   list_sources two_sources (Some ''invalid_type'') (Some ''unread'') 50 =
     Inl (DatabaseError_raised (Invalid_source_type ''invalid_type'')) \<and>
   validate_source_type ''paper'' \<and> validate_status ''unread'' \<and>
   list_sources two_sources (Some ''paper'') (Some ''unread'') (- 9223372036854775809) =
     Inl OverflowError \<and>
   (\<exists>rows omitted.
      list_sources two_sources (Some ''paper'') (Some ''unread'') 50 = Inr (map summary_of rows) \<and>
      mset (rows @ omitted) =
        mset (filter (matches_filters (Some ''paper'') (Some ''unread'')) (sources two_sources)) \<and>
      length rows = min (nat 50)
        (length (filter (matches_filters (Some ''paper'') (Some ''unread'')) (sources two_sources))))"
proof -
  have 1: "\<not> validate_source_type ''invalid_type''"
    by (simp add: validate_source_type_def VALID_SOURCE_TYPES_def)
  have a: "list_sources two_sources (Some ''invalid_type'') (Some ''unread'') 50 =
     Inl (DatabaseError_raised (Invalid_source_type ''invalid_type''))"
    using 1 list_sources_outcomes [where db = two_sources and source_type = "Some ''invalid_type''"
        and status = "Some ''unread''" and limit = 50]
    by simp
  have pre: "(\<forall>t. Some ''paper'' = Some t \<and> t \<noteq> [] \<longrightarrow> validate_source_type t) \<and>
    (\<forall>s. Some ''unread'' = Some s \<and> s \<noteq> [] \<longrightarrow> validate_status s)"
    using valid_paper valid_unread by simp
  have o: "list_sources two_sources (Some ''paper'') (Some ''unread'') (- 9223372036854775809) =
     Inl OverflowError"
    using pre list_sources_outcomes [where db = two_sources and source_type = "Some ''paper''"
        and status = "Some ''unread''" and limit = "- 9223372036854775809"]
    by simp
  have b: "\<exists>rows omitted.
      list_sources two_sources (Some ''paper'') (Some ''unread'') 50 = Inr (map summary_of rows) \<and>
      mset (rows @ omitted) =
        mset (filter (matches_filters (Some ''paper'') (Some ''unread'')) (sources two_sources)) \<and>
      length rows = min (nat 50)
        (length (filter (matches_filters (Some ''paper'') (Some ''unread'')) (sources two_sources)))"
    using pre list_sources_outcomes [where db = two_sources and source_type = "Some ''paper''"
        and status = "Some ''unread''" and limit = 50]
    by fastforce
  from 1 a valid_paper valid_unread o b show ?thesis by blast
qed

text \<open>
  The claim of C6 fails on the store with two sources. The empty string is a supplied
  source type outside the vocabulary, and \<open>list_sources\<close> returns every source instead of
  failing; with the limit \<open>-1\<close> it returns two sources, more than the limit; and with
  the limit \<open>2\<^sup>6\<^sup>3\<close> and no filter it returns no sources at all but fails with
  \<^verbatim>\<open>OverflowError\<close>.
\<close>

theorem list_sources_counterexample:
  "\<not> validate_source_type [] \<and>
   list_sources two_sources (Some []) None 50 =
     Inr [\<lparr>sum_id = ''id-B'', sum_title = ''Book B'', sum_type = ''book'',
            sum_status = ''unread'', sum_created_at = 2\<rparr>,
          \<lparr>sum_id = ''id-A'', sum_title = ''Paper A'', sum_type = ''paper'',
            sum_status = ''unread'', sum_created_at = 1\<rparr>] \<and>
   list_sources two_sources None None (- 1) =
     Inr [\<lparr>sum_id = ''id-B'', sum_title = ''Book B'', sum_type = ''book'',
            sum_status = ''unread'', sum_created_at = 2\<rparr>,
          \<lparr>sum_id = ''id-A'', sum_title = ''Paper A'', sum_type = ''paper'',
            sum_status = ''unread'', sum_created_at = 1\<rparr>] \<and>
   list_sources two_sources None None 9223372036854775808 = Inl OverflowError"
  by (simp add: validate_source_type_def VALID_SOURCE_TYPES_def list_sources_def
      type_condition_def status_condition_def Let_def get_db_connection_def two_sources_def
      sql_limit_def order_by_created_at_desc_def summary_of_def)

text \<open>
  A query that differs from the titles in case and shares single words with some of
  them; and a query with runs of white space around its words.
\<close>

theorem search_sources_by_title_tiers_witness:
  "map sum_id (search_sources_by_title five_titles ''Deep Learning'') =
     [''id-2'', ''id-3'', ''id-1'', ''id-4''] \<and>
   map sum_id (search_sources_by_title five_titles ''  cooking   BASICS '') =
     [''id-1'', ''id-5''] \<and>
   lower ''Deep Learning'' = ''deep learning'' \<and>
   split ''  cooking   basics '' = [''cooking'', ''basics'']"
proof -
  have a: "map sum_id
    (filter (\<lambda>s. lower (sum_title s) = lower ''Deep Learning'') five_titles @
     filter (\<lambda>s. lower (sum_title s) \<noteq> lower ''Deep Learning'' \<and>
                 sublist (lower ''Deep Learning'') (lower (sum_title s))) five_titles @
     filter (\<lambda>s. \<not> sublist (lower ''Deep Learning'') (lower (sum_title s)) \<and>
                 (\<exists>word\<in>set (split (lower ''Deep Learning'')).
                     sublist word (lower (sum_title s)))) five_titles) =
     [''id-2'', ''id-3'', ''id-1'', ''id-4'']"
    by code_simp
  have b: "map sum_id
    (filter (\<lambda>s. lower (sum_title s) = lower ''  cooking   BASICS '') five_titles @
     filter (\<lambda>s. lower (sum_title s) \<noteq> lower ''  cooking   BASICS '' \<and>
                 sublist (lower ''  cooking   BASICS '') (lower (sum_title s))) five_titles @
     filter (\<lambda>s. \<not> sublist (lower ''  cooking   BASICS '') (lower (sum_title s)) \<and>
                 (\<exists>word\<in>set (split (lower ''  cooking   BASICS '')).
                     sublist word (lower (sum_title s)))) five_titles) =
     [''id-1'', ''id-5'']"
    by code_simp
  have c: "lower ''Deep Learning'' = ''deep learning''"
    by code_simp
  have d: "split ''  cooking   basics '' = [''cooking'', ''basics'']"
    by code_simp
  have a': "map sum_id (search_sources_by_title five_titles ''Deep Learning'') =
     [''id-2'', ''id-3'', ''id-1'', ''id-4'']"
    by (simp only: search_sources_by_title_tiers [where srcs = five_titles
          and query = "''Deep Learning''", THEN conjunct1] a)
  have b': "map sum_id (search_sources_by_title five_titles ''  cooking   BASICS '') =
     [''id-1'', ''id-5'']"
    by (simp only: search_sources_by_title_tiers [where srcs = five_titles
          and query = "''  cooking   BASICS ''", THEN conjunct1] b)
  from a' b' c d show ?thesis
    by (intro conjI)
qed

theorem search_empty_query_witness:
  "[] \<notin> set (map sum_title three_titles) \<and>
   search_sources_by_title three_titles [] = three_titles"
proof -
  have 1: "\<forall>s\<in>set three_titles. sum_title s \<noteq> []"
    by (simp add: three_titles_def)
  then have 2: "[] \<notin> set (map sum_title three_titles)"
    by auto
  from 1 search_empty_query [of "[]" three_titles]
  have "search_sources_by_title three_titles [] = three_titles"
    by blast
  with 2 show ?thesis
    by blast
qed

lemma run_stats_history:
  "run stats_history empty_database =
     (take 3 stats_history,
      \<lparr>sources = [\<lparr>s_id = ''id-1'', s_title = ''Test Paper'', s_type = ''paper'',
          s_identifiers = [(''arxiv'', ''1234.5678'')], s_status = ''unread'',
          s_created_at = 1\<rparr>],
       source_notes = [\<lparr>n_source_id = ''id-1'', n_note_title = ''Note 1'',
          n_content = ''Content 1'', n_created_at = 2\<rparr>],
       source_entity_links = [\<lparr>l_source_id = ''id-1'', l_entity_name = ''concept'',
          l_relation_type = ''discusses'', l_notes = None, l_created_at = 3\<rparr>]\<rparr>)"
  by code_simp

theorem get_database_stats_totals_witness:
  "(let stats = get_database_stats (snd (run stats_history empty_database))
    in total_sources stats = 1 \<and> total_notes stats = 1 \<and> total_entity_links stats = 1 \<and>
       sum_list (map snd (sources_by_type stats)) = 1 \<and>
       set (map fst (sources_by_type stats)) = {''paper''})"
  using get_database_stats_totals [of stats_history]
  unfolding run_stats_history
  by (simp add: Let_def stats_history_def)

end
